theory Spec2Isabelle
  imports Complex_Main "HOL-Library.Word" "HOL-Library.Product_Lexorder"
begin

section \<open>Chat with Page: the retrieval, routing and fallback engine of the popup\<close>

text \<open>
  The popup script exists in two revisions in the sources: \<^verbatim>\<open>src/popup/main.js\<close> and the
  later revision bundled at the end of \<^verbatim>\<open>src/content/content.js\<close>, which adds the model
  fallback chain, the fetch interceptor, the chunk configuration and the markdown-aware
  truncation. The definitions below follow the later revision; where the earlier one
  differs in a function that is modelled, the difference is stated at the definition.

  JavaScript values are modelled as follows. A string is the list of its UTF-16 code
  units, which is what \<^verbatim>\<open>length\<close>, \<^verbatim>\<open>substring\<close> and \<^verbatim>\<open>includes\<close> count. A number that
  holds a length, an index or a time stamp is a \<open>nat\<close> or an \<open>int\<close>; the token
  estimate \<^verbatim>\<open>length / 4\<close> is a rational, which the division yields exactly; the entries
  of an embedding vector and the similarity scores are doubles (see Numbers). A value
  that may be \<^verbatim>\<open>null\<close> is an \<open>option\<close>. A call of an external collaborator (the
  text splitter, the embedding and chat models) is a function of the record \<open>env\<close>,
  with \<open>None\<close> for a call that throws.
\<close>

subsection \<open>Strings\<close>

type_synonym jsstring = "16 word list"

definition ascii :: "string \<Rightarrow> jsstring" where
  "ascii s = map (\<lambda>c. of_nat (of_char c)) s"

text \<open>\<^verbatim>\<open>s.includes(t)\<close>: \<open>t\<close> occurs in \<open>s\<close> as a contiguous run of code units.\<close>

fun starts_with :: "'a list \<Rightarrow> 'a list \<Rightarrow> bool" where
  "starts_with s [] = True"
| "starts_with [] (c # t) = False"
| "starts_with (d # s) (c # t) = (d = c \<and> starts_with s t)"

fun js_includes :: "'a list \<Rightarrow> 'a list \<Rightarrow> bool" where
  "js_includes [] t = (t = [])"
| "js_includes (d # s) t = (starts_with (d # s) t \<or> js_includes s t)"

text \<open>\<^verbatim>\<open>xs.join(sep)\<close>.\<close>

fun join :: "'a list \<Rightarrow> 'a list list \<Rightarrow> 'a list" where
  "join sep [] = []"
| "join sep [x] = x"
| "join sep (x # y # ys) = x @ sep @ join sep (y # ys)"

text \<open>A string is truthy when it is not empty; \<^verbatim>\<open>x || null\<close> on a string that may be null.\<close>

definition or_null :: "jsstring option \<Rightarrow> jsstring option" where
  "or_null x = (case x of None \<Rightarrow> None | Some s \<Rightarrow> if s = [] then None else Some s)"

definition truthy :: "jsstring option \<Rightarrow> bool" where
  "truthy x = (case x of None \<Rightarrow> False | Some s \<Rightarrow> s \<noteq> [])"

subsection \<open>Chunk configuration and markdown-aware truncation\<close>

record chunk_config =
  chunkSize :: nat
  chunkOverlap :: nat

text \<open>
  \<^verbatim>\<open>getOptimalChunkConfig(documentLength, useLargeChunks)\<close>. The overlap is
  \<^verbatim>\<open>Math.round(chunkSize * (overlapPercent / 100))\<close>, and \<^verbatim>\<open>Math.round x\<close> is
  \<open>\<lfloor>x + 1/2\<rfloor>\<close>, here \<open>(chunkSize * overlapPercent + 50) div 100\<close>.
\<close>

definition getOptimalChunkConfig :: "nat \<Rightarrow> bool \<Rightarrow> chunk_config" where
  "getOptimalChunkConfig documentLength useLargeChunks =
     (let (size, overlapPercent) =
        (if useLargeChunks then
           (if documentLength < 30000 then (1500, 15)
            else if documentLength < 80000 then (2500, 15)
            else if documentLength < 150000 then (3500, 15)
            else (5000, 15))
         else
           (if documentLength < 20000 then (500, 20)
            else if documentLength < 50000 then (800, 18)
            else if documentLength < 100000 then (1200, 15)
            else if documentLength < 200000 then (1800, 12)
            else (2500, 10)))
      in \<lparr> chunkSize = size, chunkOverlap = (size * overlapPercent + 50) div 100 \<rparr>)"

text \<open>
  The text splitter is LangChain's \<^verbatim>\<open>RecursiveCharacterTextSplitter\<close>, a library that is
  not part of the repository: \<open>splitter cfg text\<close> stands for
  \<^verbatim>\<open>fromLanguage('markdown', cfg).createDocuments([text])\<close> followed by
  \<^verbatim>\<open>docs.map(doc => doc.pageContent)\<close>, and is \<open>None\<close> when the call throws.
\<close>

type_synonym splitter = "chunk_config \<Rightarrow> jsstring \<Rightarrow> jsstring list option"

text \<open>
  The loop of \<^verbatim>\<open>truncateMarkdownSafely\<close> that combines whole chunks up to the budget,
  with \<open>truncated\<close> as the accumulator; the second branch is the \<^verbatim>\<open>break\<close>.
\<close>

fun combine_chunks :: "nat \<Rightarrow> jsstring \<Rightarrow> jsstring list \<Rightarrow> jsstring" where
  "combine_chunks maxChars truncated [] = truncated"
| "combine_chunks maxChars truncated (chunk # rest) =
     (if length truncated + length chunk \<le> maxChars
      then combine_chunks maxChars (truncated @ chunk @ ascii [CHR 0x0A, CHR 0x0A]) rest
      else (let remaining = int maxChars - int (length truncated)
            in if remaining > 500 then truncated @ take (nat remaining) chunk
               else truncated))"

definition truncation_marker :: jsstring where
  "truncation_marker =
     ascii ([CHR 0x0A, CHR 0x0A] @ ''... [content truncated at natural markdown boundary]'')"

definition truncateMarkdownSafely :: "splitter \<Rightarrow> jsstring \<Rightarrow> nat \<Rightarrow> jsstring" where
  "truncateMarkdownSafely split markdown maxChars =
     (if length markdown \<le> maxChars then markdown
      else (case split (getOptimalChunkConfig (length markdown) True) markdown of
              None \<Rightarrow> take maxChars markdown @ ascii ''... [content truncated]''
            | Some chunks \<Rightarrow> combine_chunks maxChars [] chunks @ truncation_marker))"

subsection \<open>Numbers\<close>

text \<open>
  A JavaScript number is an IEEE 754 double: a finite value, one of the two infinities,
  or NaN. A finite double is modelled by the real number it denotes. The two zeros are one
  value: the script compares numbers, and its only divisor is a product of two square
  roots, which is never a negative zero, so it cannot tell them apart.

  \<open>round_double\<close> gives the double nearest to a real number, a tie going to the even
  significand: 53 significant bits down to the exponent -1022, the spacing \<open>2\<^sup>-\<^sup>1\<^sup>0\<^sup>7\<^sup>4\<close>
  below it, and an infinity when the rounded magnitude reaches \<open>2\<^sup>1\<^sup>0\<^sup>2\<^sup>4\<close>.
\<close>

datatype number = Num real | PlusInfinity | MinusInfinity | NaN

definition round_even :: "real \<Rightarrow> int" where
  "round_even y =
     (let f = \<lfloor>y\<rfloor>
      in if y - of_int f < 1/2 then f
         else if y - of_int f > 1/2 then f + 1
         else if even f then f else f + 1)"

definition overflow_threshold :: real where
  "overflow_threshold = 2 ^ 1024"

definition round_double :: "real \<Rightarrow> number" where
  "round_double x =
     (if x = 0 then Num 0
      else (let ulp = 2 powi (max \<lfloor>log 2 \<bar>x\<bar>\<rfloor> (- 1022) - 52);
                y = of_int (round_even (x / ulp)) * ulp
            in if \<bar>y\<bar> \<ge> overflow_threshold
               then (if x > 0 then PlusInfinity else MinusInfinity)
               else Num y))"

text \<open>The rounding of exact arithmetic, for comparison.\<close>

definition exact :: "real \<Rightarrow> number" where
  "exact x = Num x"

text \<open>
  The operations \<^verbatim>\<open>+\<close>, \<^verbatim>\<open>*\<close>, \<^verbatim>\<open>/\<close> and \<^verbatim>\<open>Math.sqrt\<close> in an arithmetic that rounds a finite
  result with \<open>rnd\<close>; \<^verbatim>\<open>isNaN\<close>, and the comparisons \<^verbatim>\<open>>=\<close> and \<^verbatim>\<open>>\<close>, which are false
  when an operand is NaN. \<^verbatim>\<open>x === 0\<close> is \<open>x = Num 0\<close>.
\<close>

fun num_add :: "(real \<Rightarrow> number) \<Rightarrow> number \<Rightarrow> number \<Rightarrow> number" where
  "num_add rnd (Num x) (Num y) = rnd (x + y)"
| "num_add rnd NaN y = NaN"
| "num_add rnd x NaN = NaN"
| "num_add rnd PlusInfinity MinusInfinity = NaN"
| "num_add rnd MinusInfinity PlusInfinity = NaN"
| "num_add rnd PlusInfinity y = PlusInfinity"
| "num_add rnd MinusInfinity y = MinusInfinity"
| "num_add rnd (Num x) y = y"

text \<open>The sign of a number that is not NaN.\<close>

fun num_sign :: "number \<Rightarrow> real" where
  "num_sign (Num x) = sgn x"
| "num_sign PlusInfinity = 1"
| "num_sign MinusInfinity = - 1"
| "num_sign NaN = 0"

definition infinity_of_sign :: "real \<Rightarrow> number" where
  "infinity_of_sign sg =
     (if sg = 0 then NaN else if sg > 0 then PlusInfinity else MinusInfinity)"

fun num_mult :: "(real \<Rightarrow> number) \<Rightarrow> number \<Rightarrow> number \<Rightarrow> number" where
  "num_mult rnd (Num x) (Num y) = rnd (x * y)"
| "num_mult rnd NaN y = NaN"
| "num_mult rnd x NaN = NaN"
| "num_mult rnd x y = infinity_of_sign (num_sign x * num_sign y)"

fun num_divide :: "(real \<Rightarrow> number) \<Rightarrow> number \<Rightarrow> number \<Rightarrow> number" where
  "num_divide rnd (Num x) (Num y) = (if y = 0 then infinity_of_sign (sgn x) else rnd (x / y))"
| "num_divide rnd NaN y = NaN"
| "num_divide rnd x NaN = NaN"
| "num_divide rnd (Num x) y = Num 0"
| "num_divide rnd x (Num y) = infinity_of_sign (num_sign x * (if y < 0 then - 1 else 1))"
| "num_divide rnd x y = NaN"

fun num_sqrt :: "(real \<Rightarrow> number) \<Rightarrow> number \<Rightarrow> number" where
  "num_sqrt rnd (Num x) = (if x < 0 then NaN else rnd (sqrt x))"
| "num_sqrt rnd PlusInfinity = PlusInfinity"
| "num_sqrt rnd x = NaN"

definition isNaN :: "number \<Rightarrow> bool" where
  "isNaN x = (x = NaN)"

fun num_ge :: "number \<Rightarrow> number \<Rightarrow> bool" where
  "num_ge (Num x) (Num y) = (x \<ge> y)"
| "num_ge NaN y = False"
| "num_ge x NaN = False"
| "num_ge PlusInfinity y = True"
| "num_ge x MinusInfinity = True"
| "num_ge x y = False"

fun num_gt :: "number \<Rightarrow> number \<Rightarrow> bool" where
  "num_gt (Num x) (Num y) = (x > y)"
| "num_gt NaN y = False"
| "num_gt x NaN = False"
| "num_gt PlusInfinity PlusInfinity = False"
| "num_gt MinusInfinity MinusInfinity = False"
| "num_gt PlusInfinity y = True"
| "num_gt x MinusInfinity = True"
| "num_gt x y = False"

subsection \<open>Embedding vectors and cosine similarity\<close>

text \<open>An embedding vector has finite entries: it is parsed from a JSON response.\<close>

type_synonym vector = "real list"

text \<open>An embedding as a store holds it: \<open>None\<close> is a value that is not an array.\<close>

type_synonym embedding = "vector option"

text \<open>
  The body of \<^verbatim>\<open>cosineSimilarity(vecA, vecB)\<close> in an arithmetic that rounds every result
  with \<open>rnd\<close>. The \<^verbatim>\<open>reduce\<close> over \<open>vecA\<close> reads \<^verbatim>\<open>vecB[i]\<close> at the same index, after the
  lengths were found equal. No operation throws, so the \<^verbatim>\<open>catch\<close> is never entered.
\<close>

definition dotProduct :: "(real \<Rightarrow> number) \<Rightarrow> vector \<Rightarrow> vector \<Rightarrow> number" where
  "dotProduct rnd vecA vecB =
     foldl (\<lambda>sum (a, b). num_add rnd sum (num_mult rnd (Num a) (Num b))) (Num 0)
       (zip vecA vecB)"

definition magnitude :: "(real \<Rightarrow> number) \<Rightarrow> vector \<Rightarrow> number" where
  "magnitude rnd vec =
     num_sqrt rnd (foldl (\<lambda>sum a. num_add rnd sum (num_mult rnd (Num a) (Num a))) (Num 0) vec)"

definition cosine :: "(real \<Rightarrow> number) \<Rightarrow> embedding \<Rightarrow> embedding \<Rightarrow> number" where
  "cosine rnd vecA vecB =
     (case (vecA, vecB) of
        (Some a, Some b) \<Rightarrow>
          if length a \<noteq> length b then Num 0
          else if magnitude rnd a = Num 0 \<or> magnitude rnd b = Num 0 then Num 0
          else num_divide rnd (dotProduct rnd a b)
                 (num_mult rnd (magnitude rnd a) (magnitude rnd b))
      | _ \<Rightarrow> Num 0)"

text \<open>\<^verbatim>\<open>cosineSimilarity\<close> as the script computes it, in double arithmetic.\<close>

definition cosineSimilarity :: "embedding \<Rightarrow> embedding \<Rightarrow> number" where
  "cosineSimilarity = cosine round_double"

subsection \<open>The vector store and retrieval\<close>

record vector_store =
  chunks :: "jsstring list"
  embeddings :: "embedding list"

record sim_item =
  chunk :: jsstring
  score :: number
  index :: nat

text \<open>
  The callback of \<^verbatim>\<open>vectorStore.embeddings.map((embedding, index) => ...)\<close>, called for
  each \<open>index\<close> below the number of embeddings. \<^verbatim>\<open>vectorStore.chunks[index] || ''\<close> is
  the empty string where the chunk is missing.
\<close>

definition similarity_at :: "vector \<Rightarrow> vector_store \<Rightarrow> nat \<Rightarrow> sim_item" where
  "similarity_at queryEmbedding vs i =
     (let c = (if i < length (chunks vs) then chunks vs ! i else [])
      in case embeddings vs ! i of
           None \<Rightarrow> \<lparr> chunk = c, score = Num 0, index = i \<rparr>
         | Some embedding \<Rightarrow>
             if embedding = [] then \<lparr> chunk = c, score = Num 0, index = i \<rparr>
             else if length embedding \<noteq> length queryEmbedding
               then \<lparr> chunk = c, score = Num 0, index = i \<rparr>
             else (let score = cosineSimilarity (Some queryEmbedding) (Some embedding)
                   in \<lparr> chunk = c, score = (if isNaN score then Num 0 else score),
                        index = i \<rparr>))"

definition similarities :: "vector \<Rightarrow> vector_store \<Rightarrow> sim_item list" where
  "similarities queryEmbedding vs =
     map (similarity_at queryEmbedding vs) [0 ..< length (embeddings vs)]"

text \<open>
  The filter of the valid results. \<^verbatim>\<open>typeof item.score === 'number'\<close> always holds. The
  threshold is a finite number: both callers pass 0.5, the default.
\<close>

definition validSimilarities :: "vector \<Rightarrow> real \<Rightarrow> vector_store \<Rightarrow> sim_item list" where
  "validSimilarities queryEmbedding scoreThreshold vs =
     filter (\<lambda>item. chunk item \<noteq> [] \<and> \<not> isNaN (score item)
                    \<and> num_ge (score item) (Num scoreThreshold))
       (similarities queryEmbedding vs)"

text \<open>
  \<^verbatim>\<open>validSimilarities.sort((a, b) => b.score - a.score).slice(0, k)\<close>. The difference of
  two scores is positive exactly when the score of \<open>b\<close> is the greater, zero or NaN (of
  two equal infinities) when they are equal. The sort of a JavaScript array is stable,
  and so is \<open>sort_key\<close>: the key \<open>descending\<close> puts a greater score first. \<open>k\<close> is a
  count: both callers pass 4.
\<close>

fun descending :: "number \<Rightarrow> nat \<times> real" where
  "descending PlusInfinity = (0, 0)"
| "descending (Num x) = (1, - x)"
| "descending MinusInfinity = (2, 0)"
| "descending NaN = (3, 0)"

definition top_k :: "vector \<Rightarrow> nat \<Rightarrow> real \<Rightarrow> vector_store \<Rightarrow> sim_item list" where
  "top_k queryEmbedding k scoreThreshold vs =
     take k (sort_key (\<lambda>item. descending (score item))
               (validSimilarities queryEmbedding scoreThreshold vs))"

text \<open>
  \<^verbatim>\<open>retrieveRelevantChunks(query, k, scoreThreshold)\<close>, with the global \<open>vectorStore\<close>
  and its embedder \<open>embedQuery\<close> as arguments. A store that is not null always has
  its three properties and an embedder with the method, so validations 2 and 4 never
  fail; \<open>embedQuery query = None\<close> is the call that throws, caught by the function.
  The earlier revision does not test the query and the stored embeddings for emptiness,
  the chunk for being non-empty, nor the score for NaN; it filters on the score alone.
\<close>

definition retrieveRelevantChunks ::
  "(jsstring \<Rightarrow> embedding option) \<Rightarrow> vector_store option \<Rightarrow> jsstring \<Rightarrow> nat \<Rightarrow> real
     \<Rightarrow> jsstring list" where
  "retrieveRelevantChunks embedQuery vectorStore query k scoreThreshold =
     (case vectorStore of
        None \<Rightarrow> []
      | Some vs \<Rightarrow>
          if embeddings vs = [] then []
          else (case embedQuery query of
                  None \<Rightarrow> []
                | Some None \<Rightarrow> []
                | Some (Some queryEmbedding) \<Rightarrow>
                    if queryEmbedding = [] then []
                    else if validSimilarities queryEmbedding scoreThreshold vs = [] then []
                    else map chunk (top_k queryEmbedding k scoreThreshold vs)))"

text \<open>The separator both callers join the retrieved chunks with.\<close>

definition chunk_separator :: jsstring where
  "chunk_separator = ascii [CHR 0x0A, CHR 0x0A, CHR ''-'', CHR ''-'', CHR ''-'', CHR 0x0A, CHR 0x0A]"

subsection \<open>The state of the popup and its collaborators\<close>

datatype size_class = Compact | Standard

datatype mode = Stuffing | Summary | Hybrid | RAG

datatype role = Human | AI

type_synonym message = "role \<times> jsstring"

record model_info =
  name :: jsstring
  displayName :: jsstring
  speed :: jsstring

definition MODEL_FALLBACK_CHAIN :: "model_info list" where
  "MODEL_FALLBACK_CHAIN =
     [\<lparr> name = ascii ''gemini-2.5-flash-lite'', displayName = ascii ''Gemini 2.5 Flash Lite'',
        speed = ascii ''Fastest'' \<rparr>,
      \<lparr> name = ascii ''gemini-2.5-flash'', displayName = ascii ''Gemini 2.5 Flash'',
        speed = ascii ''Fast'' \<rparr>,
      \<lparr> name = ascii ''gemini-2.0-flash-lite'', displayName = ascii ''Gemini 2.0 Flash Lite'',
        speed = ascii ''Fast'' \<rparr>,
      \<lparr> name = ascii ''gemini-2.0-flash'', displayName = ascii ''Gemini 2.0 Flash'',
        speed = ascii ''Balanced'' \<rparr>]"

definition RATE_LIMIT_COOLDOWN :: int where
  "RATE_LIMIT_COOLDOWN = 3000"

text \<open>
  An error thrown by a provider call, by what \<^verbatim>\<open>handleSend\<close> reads of it:
  \<open>errorMsg\<close> is \<^verbatim>\<open>error.message || error.toString() || 'Unknown error occurred'\<close>,
  \<open>errorString\<close> is \<^verbatim>\<open>JSON.stringify(error).toLowerCase()\<close>.
\<close>

record js_error =
  errorMsg :: jsstring
  errorString :: jsstring
  status :: "nat option"
  responseStatus :: "nat option"

text \<open>
  A streamed completion: the chunks that arrive, then the error that ends the stream
  early, if any (also when the call fails before the first chunk).
\<close>

datatype stream_result = Stream "jsstring list" "js_error option"

text \<open>A chain is the prompt of its mode bound to the name of a model.\<close>

type_synonym chain = "mode \<times> jsstring"

text \<open>
  The collaborators. The last field is a matter of scheduling inside the splitter
  library: when the truncation for the summary and the index construction both wait
  for a splitter call, it tells whether the one of the truncation settles first.
\<close>

record env =
  split :: splitter
  embedQuery :: "jsstring \<Rightarrow> embedding option"
  summaryInvoke :: "size_class \<Rightarrow> jsstring \<Rightarrow> jsstring option"
  chainStream :: "chain \<Rightarrow> jsstring \<Rightarrow> jsstring \<Rightarrow> message list \<Rightarrow> stream_result"
  retrievalStream ::
    "jsstring \<Rightarrow> jsstring \<Rightarrow> jsstring \<Rightarrow> jsstring \<Rightarrow> message list \<Rightarrow> stream_result"
  truncationFirst :: bool

text \<open>
  The entry of the processing cache, as \<^verbatim>\<open>saveProcessingCache\<close> writes it to the session
  storage. The key \<^verbatim>\<open>processing_${tabId}_${url}\<close> is modelled by the pair of the tab
  identifier and the URL, which it determines.
\<close>

record cached_store =
  cached_chunks :: "jsstring list option"
  cached_embeddings :: "embedding list option"

record cache_entry =
  cached_summary :: "jsstring option"
  cached_vectorStore :: "cached_store option"
  cached_timestamp :: int
  cached_url :: jsstring

text \<open>
  What the popup appends to its list of messages. An assistant message is listed with
  the content it has when \<^verbatim>\<open>handleSend\<close> ends: nothing, the rendering of a text, or the
  indicator \<^verbatim>\<open>Searching for ...\<close>, whose description is extracted from the given
  response. An error message is listed by the case of the error handler that wrote it.
\<close>

datatype display = Blank | Rendered jsstring | Searching jsstring

datatype error_kind =
    ServiceUnavailable | ServerError | InvalidApiKey | NetworkError | OtherError jsstring

datatype ui_item =
    UserMessage jsstring
  | AssistantMessage display
  | ErrorMessage error_kind
  | ModelSwitchPrompt model_info model_info
  | FinalRateLimitMessage

text \<open>
  The calls of the collaborators, in the order in which they are made (a call is logged
  when it starts).
\<close>

datatype call =
    Summarize size_class jsstring
  | Split chunk_config
  | Embed jsstring
  | ChainStream chain jsstring jsstring
  | Retrieve jsstring nat real
  | RetrievalStream jsstring jsstring jsstring

text \<open>
  The global variables of the popup script, followed by what it changes outside of
  them: the session storage, the mode badge, the items appended to the message list
  (\<open>shown\<close>, in order; toasts, the console, the typing and processing indicators are
  left out), the number of model switch prompts on display, the log of collaborator
  calls, the number of rate-limit callbacks waiting in \<^verbatim>\<open>setTimeout\<close>, and the
  calls of \<^verbatim>\<open>handleSend\<close> that are under way, each with its request identifier and
  its question.
\<close>

record popup =
  pageContent :: "jsstring option"
  chain :: "chain option"
  chatHistory :: "message list"
  currentTabId :: "nat option"
  currentPageUrl :: "jsstring option"
  vectorStore :: "vector_store option"
  isLongDocument :: bool
  useSummaryMode :: bool
  useHybridMode :: bool
  documentSummary :: "jsstring option"
  currentModelIndex :: nat
  lastFailedQuestion :: "jsstring option"
  isHandlingRateLimit :: bool
  rateLimitPromptShown :: bool
  activeRequestId :: "jsstring option"
  lastRateLimitTime :: int
  sessionStorage :: "nat \<times> jsstring \<Rightarrow> cache_entry option"
  modeBadge :: "mode option"
  shown :: "ui_item list"
  openPrompts :: nat
  calls :: "call list"
  pendingTimers :: nat
  inflight :: "(jsstring \<times> jsstring) list"

text \<open>The script as it is loaded: every global at its initialiser.\<close>

definition initial :: popup where
  "initial =
     \<lparr> pageContent = None, chain = None, chatHistory = [], currentTabId = None,
       currentPageUrl = None, vectorStore = None, isLongDocument = False,
       useSummaryMode = False, useHybridMode = False, documentSummary = None,
       currentModelIndex = 0, lastFailedQuestion = None, isHandlingRateLimit = False,
       rateLimitPromptShown = False, activeRequestId = None, lastRateLimitTime = 0,
       sessionStorage = (\<lambda>key. None), modeBadge = None, shown = [], openPrompts = 0,
       calls = [], pendingTimers = 0, inflight = [] \<rparr>"

definition log_call :: "call \<Rightarrow> popup \<Rightarrow> popup" where
  "log_call c s = s\<lparr> calls := calls s @ [c] \<rparr>"

definition show_item :: "ui_item \<Rightarrow> popup \<Rightarrow> popup" where
  "show_item item s = s\<lparr> shown := shown s @ [item] \<rparr>"

subsection \<open>The model fallback chain\<close>

text \<open>
  \<^verbatim>\<open>getCurrentModel()\<close>. The index stays below the length of the chain (lemma
  \<open>run_index_in_range\<close>), so the read is in range.
\<close>

definition getCurrentModel :: "popup \<Rightarrow> jsstring" where
  "getCurrentModel s = name (MODEL_FALLBACK_CHAIN ! currentModelIndex s)"

definition getNextModel :: "popup \<Rightarrow> model_info option" where
  "getNextModel s =
     (if int (currentModelIndex s) < int (length MODEL_FALLBACK_CHAIN) - 1
      then Some (MODEL_FALLBACK_CHAIN ! (currentModelIndex s + 1))
      else None)"

text \<open>
  \<^verbatim>\<open>initLangChainStuffing\<close>, \<^verbatim>\<open>initLangChainSummary\<close>, \<^verbatim>\<open>initLangChainHybrid\<close> and
  \<^verbatim>\<open>initLangChainRAG\<close> differ in the system prompt only, which is the mode here.
\<close>

definition initLangChain :: "mode \<Rightarrow> popup \<Rightarrow> popup" where
  "initLangChain m s = s\<lparr> chain := Some (m, getCurrentModel s) \<rparr>"

definition updateModeBadge :: "mode \<Rightarrow> popup \<Rightarrow> popup" where
  "updateModeBadge m s = s\<lparr> modeBadge := Some m \<rparr>"

text \<open>\<^verbatim>\<open>switchToNextModel()\<close>: the new state and the returned flag.\<close>

definition switchToNextModel :: "popup \<Rightarrow> popup \<times> bool" where
  "switchToNextModel s =
     (case getNextModel s of
        Some nextModel \<Rightarrow>
          (let s1 = s\<lparr> currentModelIndex := currentModelIndex s + 1 \<rparr>
           in (if useHybridMode s1 then initLangChain Hybrid s1
               else if isLongDocument s1 then initLangChain RAG s1
               else if useSummaryMode s1 then initLangChain Summary s1
               else initLangChain Stuffing s1, True))
      | None \<Rightarrow> (s, False))"

definition showFinalRateLimitMessage :: "popup \<Rightarrow> popup" where
  "showFinalRateLimitMessage s = show_item FinalRateLimitMessage s"

text \<open>
  \<^verbatim>\<open>showModelSwitchPrompt()\<close>: the prompt names the current and the next model; its two
  buttons are the functions \<open>click_switch\<close> and \<open>click_cancel\<close> below.
\<close>

definition showModelSwitchPrompt :: "popup \<Rightarrow> popup" where
  "showModelSwitchPrompt s =
     (case getNextModel s of
        None \<Rightarrow> showFinalRateLimitMessage s
      | Some nextModel \<Rightarrow>
          show_item (ModelSwitchPrompt (MODEL_FALLBACK_CHAIN ! currentModelIndex s) nextModel)
            (s\<lparr> openPrompts := openPrompts s + 1 \<rparr>))"

subsection \<open>The processing cache\<close>

text \<open>
  \<^verbatim>\<open>saveProcessingCache(tabId, url, summary, vectorStoreData)\<close> at the time \<open>now\<close>, and
  \<^verbatim>\<open>loadProcessingCache(tabId, url)\<close>. A tab identifier is falsy when it is null or 0,
  a URL when it is null or empty. A failure of the storage itself is not modelled: the
  functions catch it, and a failed load is a miss.
\<close>

definition saveProcessingCache ::
  "nat option \<Rightarrow> jsstring option \<Rightarrow> jsstring option \<Rightarrow> cached_store \<Rightarrow> int \<Rightarrow> popup \<Rightarrow> popup" where
  "saveProcessingCache tabId url summary vectorStoreData now s =
     (case (tabId, url) of
        (Some tab, Some u) \<Rightarrow>
          if tab = 0 \<or> u = [] then s
          else s\<lparr> sessionStorage := (sessionStorage s)
                  ((tab, u) := Some \<lparr> cached_summary = summary,
                                       cached_vectorStore = Some vectorStoreData,
                                       cached_timestamp = now, cached_url = u \<rparr>) \<rparr>
      | _ \<Rightarrow> s)"

definition loadProcessingCache :: "nat option \<Rightarrow> jsstring option \<Rightarrow> popup \<Rightarrow> cache_entry option" where
  "loadProcessingCache tabId url s =
     (case (tabId, url) of
        (Some tab, Some u) \<Rightarrow>
          if tab = 0 \<or> u = [] then None
          else (case sessionStorage s (tab, u) of
                  Some cached \<Rightarrow> if cached_url cached = u then Some cached else None
                | None \<Rightarrow> None)
      | _ \<Rightarrow> None)"

subsection \<open>Summary and index construction\<close>

text \<open>
  The splitter call that \<^verbatim>\<open>truncateMarkdownSafely(markdown, maxChars)\<close> makes: none for
  a text within the budget.
\<close>

definition truncation_calls :: "jsstring \<Rightarrow> nat \<Rightarrow> call list" where
  "truncation_calls markdown maxChars =
     (if length markdown \<le> maxChars then []
      else [Split (getOptimalChunkConfig (length markdown) True)])"

text \<open>
  \<^verbatim>\<open>generateSummary(markdown, apiKey, targetSize)\<close>. The prompt is determined by the
  target size and the processed text, which are what the summary model is called with.
  The earlier revision sends the text as it is, without the truncation to 100000
  characters.
\<close>

definition generateSummary :: "env \<Rightarrow> jsstring \<Rightarrow> size_class \<Rightarrow> popup \<Rightarrow> popup" where
  "generateSummary e markdown targetSize s =
     (let s0 = (if length markdown > 100000
                then s\<lparr> calls := calls s @ truncation_calls markdown 100000 \<rparr>
                else s);
          processedMarkdown =
            (if length markdown > 100000 then truncateMarkdownSafely (split e) markdown 100000
             else markdown);
          s1 = log_call (Summarize targetSize processedMarkdown) s0
      in case summaryInvoke e targetSize processedMarkdown of
           Some content \<Rightarrow> s1\<lparr> documentSummary := Some content \<rparr>
         | None \<Rightarrow> s1\<lparr> useSummaryMode := False, documentSummary := None \<rparr>)"

text \<open>
  \<^verbatim>\<open>setupRAGPipeline(markdown, apiKey)\<close>. \<^verbatim>\<open>Promise.all\<close> starts the embedding of every
  chunk and rejects when one of them does. The earlier revision splits with the fixed
  chunk size 1000 and overlap 200.
\<close>

definition setupRAGPipeline :: "env \<Rightarrow> jsstring \<Rightarrow> popup \<Rightarrow> popup" where
  "setupRAGPipeline e markdown s =
     (let cfg = getOptimalChunkConfig (length markdown) False;
          s1 = log_call (Split cfg) s
      in case split e cfg markdown of
           None \<Rightarrow> s1\<lparr> isLongDocument := False, vectorStore := None \<rparr>
         | Some cs \<Rightarrow>
             (let s2 = s1\<lparr> calls := calls s1 @ map Embed cs \<rparr>
              in case those (map (embedQuery e) cs) of
                   None \<Rightarrow> s2\<lparr> isLongDocument := False, vectorStore := None \<rparr>
                 | Some es \<Rightarrow> s2\<lparr> vectorStore := Some \<lparr> chunks = cs, embeddings = es \<rparr> \<rparr>))"

text \<open>
  \<^verbatim>\<open>Promise.all\<close> over \<^verbatim>\<open>generateSummary\<close> and \<^verbatim>\<open>setupRAGPipeline\<close>, called in this
  order. The two write different globals and read none, so the state is that of one
  after the other. Each runs up to its first \<^verbatim>\<open>await\<close> when it is called, which is at
  its first collaborator call: \<open>gs\<close> are the calls of the summary, \<open>rs\<close> those of the
  index. The rest of the summary is a call only for a text over 100000 characters, whose
  truncation waits for the splitter as the index construction does; \<open>first\<close> tells
  whether the summary goes on before the index then.
\<close>

definition interleave :: "bool \<Rightarrow> call list \<Rightarrow> call list \<Rightarrow> call list" where
  "interleave first gs rs =
     take 1 gs @ take 1 rs
       @ (if first then drop 1 gs @ drop 1 rs else drop 1 rs @ drop 1 gs)"

definition summary_and_index :: "env \<Rightarrow> jsstring \<Rightarrow> size_class \<Rightarrow> popup \<Rightarrow> popup" where
  "summary_and_index e markdown targetSize s =
     (let g = generateSummary e markdown targetSize s;
          r = setupRAGPipeline e markdown g
      in r\<lparr> calls := calls s @ interleave (truncationFirst e)
                                   (drop (length (calls s)) (calls g))
                                   (drop (length (calls g)) (calls r)) \<rparr>)"

subsection \<open>The router\<close>

datatype route = Direct | HybridCompact | HybridStandard | PureRetrieval

definition estimatedTokens :: "jsstring \<Rightarrow> rat" where
  "estimatedTokens markdown = of_nat (length markdown) / 4"

text \<open>
  The chain of comparisons that \<^verbatim>\<open>processPageContent\<close> makes on a cache miss; the four
  branches are paths A to D of the source.
\<close>

definition classify :: "rat \<Rightarrow> route" where
  "classify tokens =
     (if tokens < 10000 then Direct
      else if tokens < 20000 then HybridCompact
      else if tokens < 30000 then HybridStandard
      else PureRetrieval)"

definition store_snapshot :: "popup \<Rightarrow> cached_store" where
  "store_snapshot s =
     \<lparr> cached_chunks = map_option chunks (vectorStore s),
       cached_embeddings = map_option embeddings (vectorStore s) \<rparr>"

text \<open>The branches of a cache miss: paths A, B, C and D.\<close>

definition path_direct :: "popup \<Rightarrow> popup" where
  "path_direct s =
     initLangChain Stuffing (updateModeBadge Stuffing
       (s\<lparr> isLongDocument := False, useSummaryMode := False, useHybridMode := False,
           vectorStore := None, documentSummary := None \<rparr>))"

definition path_hybrid_compact :: "env \<Rightarrow> int \<Rightarrow> jsstring \<Rightarrow> popup \<Rightarrow> popup" where
  "path_hybrid_compact e now markdown s =
     (let s1 = s\<lparr> isLongDocument := False, useSummaryMode := False, useHybridMode := True \<rparr>;
          s2 = summary_and_index e markdown Compact s1
      in if truthy (documentSummary s2) \<and> vectorStore s2 \<noteq> None
         then saveProcessingCache (currentTabId s2) (currentPageUrl s2) (documentSummary s2)
                (store_snapshot s2) now (initLangChain Hybrid (updateModeBadge Hybrid s2))
         else initLangChain Stuffing (updateModeBadge Stuffing (s2\<lparr> useHybridMode := False \<rparr>)))"

definition path_hybrid_standard :: "env \<Rightarrow> int \<Rightarrow> jsstring \<Rightarrow> popup \<Rightarrow> popup" where
  "path_hybrid_standard e now markdown s =
     (let s1 = s\<lparr> isLongDocument := False, useSummaryMode := False, useHybridMode := True \<rparr>;
          s2 = summary_and_index e markdown Standard s1
      in if truthy (documentSummary s2) \<and> vectorStore s2 \<noteq> None
         then saveProcessingCache (currentTabId s2) (currentPageUrl s2) (documentSummary s2)
                (store_snapshot s2) now (initLangChain Hybrid (updateModeBadge Hybrid s2))
         else (let s3 = initLangChain RAG
                          (setupRAGPipeline e markdown
                             (updateModeBadge RAG (s2\<lparr> useHybridMode := False \<rparr>)))
               in if vectorStore s3 \<noteq> None
                  then saveProcessingCache (currentTabId s3) (currentPageUrl s3) None
                         (store_snapshot s3) now s3
                  else s3))"

definition path_pure_retrieval :: "env \<Rightarrow> int \<Rightarrow> jsstring \<Rightarrow> popup \<Rightarrow> popup" where
  "path_pure_retrieval e now markdown s =
     (let s1 = s\<lparr> isLongDocument := True, useSummaryMode := False, useHybridMode := False,
                 documentSummary := None \<rparr>;
          s2 = initLangChain RAG (setupRAGPipeline e markdown (updateModeBadge RAG s1))
      in if vectorStore s2 \<noteq> None
         then saveProcessingCache (currentTabId s2) (currentPageUrl s2) None
                (store_snapshot s2) now s2
         else s2)"

definition process_cold :: "env \<Rightarrow> int \<Rightarrow> jsstring \<Rightarrow> popup \<Rightarrow> popup" where
  "process_cold e now markdown s =
     (case classify (estimatedTokens markdown) of
        Direct \<Rightarrow> path_direct s
      | HybridCompact \<Rightarrow> path_hybrid_compact e now markdown s
      | HybridStandard \<Rightarrow> path_hybrid_standard e now markdown s
      | PureRetrieval \<Rightarrow> path_pure_retrieval e now markdown s)"

text \<open>
  The branch of \<^verbatim>\<open>processPageContent\<close> for a cache entry that has index data: the
  summary and the store are restored, then the mode is chosen. The store is restored
  only when the entry has both the chunks and the embeddings.
\<close>

definition restore_cached :: "cache_entry \<Rightarrow> cached_store \<Rightarrow> popup \<Rightarrow> popup" where
  "restore_cached cached cvs s =
     (let s1 = s\<lparr> documentSummary := or_null (cached_summary cached) \<rparr>
      in case (cached_chunks cvs, cached_embeddings cvs) of
           (Some cs, Some es) \<Rightarrow> s1\<lparr> vectorStore := Some \<lparr> chunks = cs, embeddings = es \<rparr> \<rparr>
         | _ \<Rightarrow> s1)"

definition process_cached :: "jsstring \<Rightarrow> cache_entry \<Rightarrow> cached_store \<Rightarrow> popup \<Rightarrow> popup" where
  "process_cached markdown cached cvs s =
     (let s1 = restore_cached cached cvs s
      in if estimatedTokens markdown < 10000
         then initLangChain Stuffing (updateModeBadge Stuffing
                (s1\<lparr> isLongDocument := False, useSummaryMode := False, useHybridMode := False \<rparr>))
         else if truthy (documentSummary s1) \<and> vectorStore s1 \<noteq> None
         then initLangChain Hybrid (updateModeBadge Hybrid
                (s1\<lparr> isLongDocument := False, useSummaryMode := False, useHybridMode := True \<rparr>))
         else if vectorStore s1 \<noteq> None
         then initLangChain RAG (updateModeBadge RAG
                (s1\<lparr> isLongDocument := True, useSummaryMode := False, useHybridMode := False \<rparr>))
         else initLangChain Stuffing (updateModeBadge Stuffing
                (s1\<lparr> isLongDocument := False, useSummaryMode := False, useHybridMode := False \<rparr>)))"

text \<open>\<^verbatim>\<open>processPageContent(apiKey)\<close> at the time \<open>now\<close>.\<close>

definition processPageContent :: "env \<Rightarrow> int \<Rightarrow> popup \<Rightarrow> popup" where
  "processPageContent e now s =
     (case or_null (pageContent s) of
        None \<Rightarrow> s
      | Some markdown \<Rightarrow>
          (case loadProcessingCache (currentTabId s) (currentPageUrl s) s of
             None \<Rightarrow> process_cold e now markdown s
           | Some cached \<Rightarrow>
               (case cached_vectorStore cached of
                  None \<Rightarrow> process_cold e now markdown s
                | Some cvs \<Rightarrow> process_cached markdown cached cvs s)))"

subsection \<open>Answering a question\<close>

text \<open>The marker of the hybrid summary prompt and the fixed texts of \<^verbatim>\<open>handleSend\<close>.\<close>

definition NEEDS_DETAIL :: jsstring where
  "NEEDS_DETAIL = [0xD83D, 0xDD0D] @ ascii '' NEEDS_DETAIL:''"

definition NO_DETAILS_MESSAGE :: jsstring where
  "NO_DETAILS_MESSAGE =
     ascii ''Could not find specific details. The summary may be your best answer.''"

definition NO_RELEVANT_INFORMATION :: jsstring where
  "NO_RELEVANT_INFORMATION = ascii ''No relevant information found in the document.''"

text \<open>The content of the message element after the chunks of a stream were rendered.\<close>

definition rendered :: "display \<Rightarrow> jsstring list \<Rightarrow> display" where
  "rendered before cs = (if cs = [] then before else Rendered (concat cs))"

definition push_history :: "jsstring \<Rightarrow> jsstring \<Rightarrow> popup \<Rightarrow> popup" where
  "push_history q fullResponse s =
     s\<lparr> chatHistory := chatHistory s @ [(Human, q), (AI, fullResponse)] \<rparr>"

text \<open>
  The branches of the \<^verbatim>\<open>try\<close> block of \<^verbatim>\<open>handleSend\<close> for the chain \<open>c\<close> and the
  question \<open>q\<close>. Each returns the new state and the error thrown, if any, which the
  \<^verbatim>\<open>catch\<close> block receives. The message element is appended before the first call.

  Hybrid mode: the summary-stage completion; when its full response includes the
  marker, one retrieval with the question, \<open>k = 4\<close> and threshold 0.5, and then either
  the detail-stage completion or the fixed message.
\<close>

definition hybrid_answer :: "env \<Rightarrow> chain \<Rightarrow> jsstring \<Rightarrow> jsstring \<Rightarrow> popup \<Rightarrow> popup \<times> js_error option" where
  "hybrid_answer e c summary q s =
     (let s1 = log_call (ChainStream c summary q) s
      in case chainStream e c summary q (chatHistory s) of
           Stream chunks1 (Some err) \<Rightarrow>
             (show_item (AssistantMessage (rendered Blank chunks1)) s1, Some err)
         | Stream chunks1 None \<Rightarrow>
             (let fullResponse = concat chunks1
              in if js_includes fullResponse NEEDS_DETAIL
                 then
                   (let s2 = log_call (Retrieve q 4 (1/2)) s1;
                        relevantChunks =
                          retrieveRelevantChunks (embedQuery e) (vectorStore s) q 4 (1/2);
                        retrievedContext = join chunk_separator relevantChunks
                    in if retrievedContext \<noteq> []
                       then
                         (let s3 = log_call (RetrievalStream summary retrievedContext q) s2
                          in case retrievalStream e (getCurrentModel s) summary retrievedContext q
                                    (chatHistory s) of
                               Stream chunks2 (Some err) \<Rightarrow>
                                 (show_item (AssistantMessage
                                    (rendered (Searching fullResponse) chunks2)) s3, Some err)
                             | Stream chunks2 None \<Rightarrow>
                                 (push_history q (concat chunks2)
                                    (show_item (AssistantMessage
                                       (rendered (Searching fullResponse) chunks2)) s3), None))
                       else
                         (push_history q fullResponse
                            (show_item (AssistantMessage (Rendered NO_DETAILS_MESSAGE)) s2), None))
                 else
                   (push_history q fullResponse
                      (show_item (AssistantMessage (rendered Blank chunks1)) s1), None)))"

text \<open>The three modes with a single completion: it streams the answer for a context.\<close>

definition single_answer :: "env \<Rightarrow> chain \<Rightarrow> jsstring \<Rightarrow> jsstring \<Rightarrow> popup \<Rightarrow> popup \<times> js_error option" where
  "single_answer e c context q s =
     (let s1 = log_call (ChainStream c context q) s
      in case chainStream e c context q (chatHistory s) of
           Stream cs (Some err) \<Rightarrow> (show_item (AssistantMessage (rendered Blank cs)) s1, Some err)
         | Stream cs None \<Rightarrow>
             (push_history q (concat cs) (show_item (AssistantMessage (rendered Blank cs)) s1),
              None))"

definition rag_answer :: "env \<Rightarrow> chain \<Rightarrow> jsstring \<Rightarrow> popup \<Rightarrow> popup \<times> js_error option" where
  "rag_answer e c q s =
     (let s1 = log_call (Retrieve q 4 (1/2)) s;
          relevantChunks = retrieveRelevantChunks (embedQuery e) (vectorStore s) q 4 (1/2);
          joined = join chunk_separator relevantChunks;
          context = (if joined = [] then NO_RELEVANT_INFORMATION else joined)
      in single_answer e c context q s1)"

text \<open>
  Direct mode sends the page text, truncated beyond 50000 characters. The earlier
  revision truncates with \<^verbatim>\<open>substring(0, 50000) + '... [content truncated]'\<close>.
\<close>

definition direct_answer :: "env \<Rightarrow> chain \<Rightarrow> jsstring \<Rightarrow> jsstring \<Rightarrow> popup \<Rightarrow> popup \<times> js_error option" where
  "direct_answer e c text q s =
     (let s0 = (if length text > 50000
                then s\<lparr> calls := calls s @ truncation_calls text 50000 \<rparr>
                else s);
          context = (if length text > 50000 then truncateMarkdownSafely (split e) text 50000
                     else text)
      in single_answer e c context q s0)"

text \<open>
  The \<^verbatim>\<open>try\<close> block: the choice of the mode, and the history kept to its last 20
  messages when no error was thrown. The chain and the page content are not null here:
  \<^verbatim>\<open>handleSend\<close> returned before otherwise, and neither is ever reset to null. Saving
  the history to the session storage is not modelled.
\<close>

definition try_block :: "env \<Rightarrow> chain \<Rightarrow> jsstring \<Rightarrow> jsstring \<Rightarrow> popup \<Rightarrow> popup \<times> js_error option" where
  "try_block e c text q s =
     (let (s1, err) =
        (if useHybridMode s \<and> truthy (documentSummary s) \<and> vectorStore s \<noteq> None
           then hybrid_answer e c (the (documentSummary s)) q s
         else if useSummaryMode s \<and> truthy (documentSummary s)
           then single_answer e c (the (documentSummary s)) q s
         else if isLongDocument s \<and> vectorStore s \<noteq> None
           then rag_answer e c q s
         else direct_answer e c text q s)
      in case err of
           Some er \<Rightarrow> (s1, Some er)
         | None \<Rightarrow>
             (if length (chatHistory s1) > 20
              then s1\<lparr> chatHistory := drop (length (chatHistory s1) - 20) (chatHistory s1) \<rparr>
              else s1, None))"

text \<open>
  The \<^verbatim>\<open>catch\<close> block: the rate-limit test, then the other kinds of error. The earlier
  revision has no fallback chain: it tests the message alone and reports a rate-limit
  error as an exceeded quota.
\<close>

definition isRateLimit :: "js_error \<Rightarrow> bool" where
  "isRateLimit er =
     (js_includes (errorMsg er) (ascii ''429'')
      \<or> js_includes (errorMsg er) (ascii ''Too Many Requests'')
      \<or> js_includes (errorString er) (ascii ''429'')
      \<or> js_includes (errorString er) (ascii ''too many requests'')
      \<or> status er = Some 429
      \<or> responseStatus er = Some 429)"

definition catch_block :: "js_error \<Rightarrow> jsstring \<Rightarrow> popup \<Rightarrow> popup" where
  "catch_block er q s =
     (let msg = errorMsg er
      in if isRateLimit er
           then showModelSwitchPrompt (s\<lparr> lastFailedQuestion := Some q \<rparr>)
         else if js_includes msg (ascii ''503'') \<or> js_includes msg (ascii ''Service Unavailable'')
           then show_item (ErrorMessage ServiceUnavailable) s
         else if js_includes msg (ascii ''500'') \<or> js_includes msg (ascii ''502'')
                 \<or> js_includes msg (ascii ''504'')
           then show_item (ErrorMessage ServerError) s
         else if js_includes msg (ascii ''400'') \<or> js_includes msg (ascii ''401'')
                 \<or> js_includes msg (ascii ''403'') \<or> js_includes msg (ascii ''API_KEY_INVALID'')
           then show_item (ErrorMessage InvalidApiKey) s
         else if js_includes msg (ascii ''Failed to fetch'') \<or> js_includes msg (ascii ''Network'')
           then show_item (ErrorMessage NetworkError) s
         else show_item (ErrorMessage (OtherError msg)) s)"

text \<open>
  \<^verbatim>\<open>handleSend()\<close> in two parts. \<open>handleSend_start\<close> runs up to the first \<^verbatim>\<open>await\<close>: \<open>q\<close>
  is the trimmed input, and the request identifier is the time stamp, a dash and a
  random string; it is \<open>None\<close> when the function returns early. \<open>handleSend_finish\<close> is
  the \<^verbatim>\<open>try\<close>, \<^verbatim>\<open>catch\<close> and \<^verbatim>\<open>finally\<close> for the question \<open>q\<close>.
\<close>

definition handleSend_start :: "jsstring \<Rightarrow> jsstring \<Rightarrow> jsstring \<Rightarrow> popup \<Rightarrow> popup option" where
  "handleSend_start q stamp rnd s =
     (if q = [] then None
      else if pageContent s = None then None
      else if chain s = None then None
      else Some (show_item (UserMessage q)
                   (s\<lparr> activeRequestId := Some (stamp @ ascii ''-'' @ rnd),
                       inflight := inflight s @ [(stamp @ ascii ''-'' @ rnd, q)] \<rparr>)))"

definition handleSend_finish :: "env \<Rightarrow> jsstring \<Rightarrow> popup \<Rightarrow> popup" where
  "handleSend_finish e q s =
     (case (chain s, pageContent s) of
        (Some c, Some text) \<Rightarrow>
          (let (s1, err) = try_block e c text q s;
               s2 = (case err of None \<Rightarrow> s1 | Some er \<Rightarrow> catch_block er q s1)
           in s2\<lparr> activeRequestId := None \<rparr>)
      | _ \<Rightarrow> s)"

definition handleSend :: "env \<Rightarrow> jsstring \<Rightarrow> jsstring \<Rightarrow> jsstring \<Rightarrow> popup \<Rightarrow> popup" where
  "handleSend e q stamp rnd s =
     (case handleSend_start q stamp rnd s of
        None \<Rightarrow> s
      | Some s1 \<Rightarrow> (handleSend_finish e q s1)\<lparr> inflight := inflight s \<rparr>)"

subsection \<open>Rate-limit detection and the model switch\<close>

text \<open>
  The function installed as \<^verbatim>\<open>window.fetch\<close>, for a response with the given status to a
  request of the given URL, at the time \<open>now\<close>. Its arguments are those of \<^verbatim>\<open>fetch\<close>:
  nothing tells it which call of \<^verbatim>\<open>handleSend\<close> issued the request. Its last action on a
  new detection is \<^verbatim>\<open>setTimeout(..., 100)\<close>, which adds a waiting callback.
\<close>

definition GEMINI_HOST :: jsstring where
  "GEMINI_HOST = ascii ''generativelanguage.googleapis.com''"

definition fetch_interceptor :: "nat \<Rightarrow> jsstring \<Rightarrow> int \<Rightarrow> popup \<Rightarrow> popup" where
  "fetch_interceptor response_status url now s =
     (if response_status = 429 \<and> js_includes url GEMINI_HOST then
        (if \<not> truthy (activeRequestId s) then s
         else if now - lastRateLimitTime s < RATE_LIMIT_COOLDOWN then s
         else if isHandlingRateLimit s then s
         else s\<lparr> lastRateLimitTime := now, isHandlingRateLimit := True,
                 pendingTimers := pendingTimers s + 1 \<rparr>)
      else s)"

text \<open>
  The callback of that \<^verbatim>\<open>setTimeout\<close>. The last user message of the page is the last
  \<open>UserMessage\<close> shown (the messages restored from a stored history are not modelled).
\<close>

definition last_user_message :: "ui_item list \<Rightarrow> jsstring option" where
  "last_user_message items =
     (case filter (\<lambda>item. case item of UserMessage q \<Rightarrow> True | _ \<Rightarrow> False) items of
        [] \<Rightarrow> None
      | ms \<Rightarrow> (case last ms of UserMessage q \<Rightarrow> Some q | _ \<Rightarrow> None))"

definition rate_limit_callback :: "popup \<Rightarrow> popup" where
  "rate_limit_callback s =
     (let s1 = (if \<not> truthy (lastFailedQuestion s)
                then (case last_user_message (shown s) of
                        Some q \<Rightarrow> s\<lparr> lastFailedQuestion := Some q \<rparr>
                      | None \<Rightarrow> s)
                else s)
      in if getNextModel s1 \<noteq> None \<and> \<not> rateLimitPromptShown s1
           then showModelSwitchPrompt (s1\<lparr> rateLimitPromptShown := True \<rparr>)
         else if getNextModel s1 = None
           then showFinalRateLimitMessage
                  (s1\<lparr> rateLimitPromptShown := False, isHandlingRateLimit := False \<rparr>)
         else s1)"

text \<open>
  The two buttons of a model switch prompt. A click removes its prompt. After a
  successful switch the failed question, if any, is sent again by \<^verbatim>\<open>handleSend\<close>, whose
  first part runs here with the time stamp and random string of the new request.
\<close>

definition click_switch :: "jsstring \<Rightarrow> jsstring \<Rightarrow> popup \<Rightarrow> popup" where
  "click_switch stamp rnd s =
     (let s1 = s\<lparr> openPrompts := openPrompts s - 1, rateLimitPromptShown := False,
                 isHandlingRateLimit := False, lastRateLimitTime := 0 \<rparr>;
          (s2, switched) = switchToNextModel s1
      in if switched \<and> truthy (lastFailedQuestion s2)
         then (let q = the (lastFailedQuestion s2);
                   s3 = s2\<lparr> lastFailedQuestion := None \<rparr>
               in case handleSend_start q stamp rnd s3 of
                    None \<Rightarrow> s3
                  | Some s4 \<Rightarrow> s4)
         else s2)"

definition click_cancel :: "popup \<Rightarrow> popup" where
  "click_cancel s =
     s\<lparr> openPrompts := openPrompts s - 1, rateLimitPromptShown := False,
        isHandlingRateLimit := False, lastFailedQuestion := None, activeRequestId := None,
        lastRateLimitTime := 0 \<rparr>"

subsection \<open>Runs of the popup\<close>

text \<open>
  What can happen to an open popup, one event at a time: the page is loaded for a tab
  (\<^verbatim>\<open>init\<close> and \<^verbatim>\<open>loadPageContent\<close>: a response without text leaves the content as
  it is); the page is processed; a question is sent; a call of \<^verbatim>\<open>handleSend\<close> under
  way, the \<open>i\<close>-th, completes against the collaborators \<open>e\<close>; a response passes the
  fetch interceptor; a waiting rate-limit callback fires; a button of a model switch
  prompt is clicked. An event that cannot happen in the state leaves it unchanged. The
  part of \<^verbatim>\<open>handleSend\<close> after its first \<^verbatim>\<open>await\<close> is taken as one step. A question
  can be sent while another is under way: the Enter key calls \<^verbatim>\<open>handleSend\<close> whether or
  not the send button is disabled.

  The last argument of \<open>Fetch\<close> is the request identifier of the call of \<^verbatim>\<open>handleSend\<close>
  that issued the request, \<open>None\<close> for a request of the page processing. It is what an
  observer of the run knows, and no argument of the interceptor.
\<close>

datatype event =
    Load nat jsstring jsstring
  | Process env int
  | Send jsstring jsstring jsstring
  | SendDone nat env
  | Fetch nat jsstring int "jsstring option"
  | Timer
  | ClickSwitch jsstring jsstring
  | ClickCancel

fun step :: "event \<Rightarrow> popup \<Rightarrow> popup" where
  "step (Load tab url text) s =
     (if text = [] then s\<lparr> currentTabId := Some tab \<rparr>
      else s\<lparr> currentTabId := Some tab, pageContent := Some text, currentPageUrl := Some url \<rparr>)"
| "step (Process e now) s = processPageContent e now s"
| "step (Send q stamp rnd) s =
     (case handleSend_start q stamp rnd s of None \<Rightarrow> s | Some s1 \<Rightarrow> s1)"
| "step (SendDone i e) s =
     (if i < length (inflight s)
      then handleSend_finish e (snd (inflight s ! i))
             (s\<lparr> inflight := take i (inflight s) @ drop (Suc i) (inflight s) \<rparr>)
      else s)"
| "step (Fetch response_status url now issuer) s = fetch_interceptor response_status url now s"
| "step Timer s =
     (if pendingTimers s > 0 then rate_limit_callback (s\<lparr> pendingTimers := pendingTimers s - 1 \<rparr>)
      else s)"
| "step (ClickSwitch stamp rnd) s =
     (if openPrompts s > 0 then click_switch stamp rnd s else s)"
| "step ClickCancel s = (if openPrompts s > 0 then click_cancel s else s)"

fun run :: "popup \<Rightarrow> event list \<Rightarrow> popup" where
  "run s [] = s"
| "run s (ev # evs) = run (step ev s) evs"

text \<open>
  A detection is honoured when the interceptor starts the model-switch flow, that is,
  when it leaves a callback waiting. \<open>honoured_times s evs\<close> lists the times of the
  detections honoured in the run of \<open>evs\<close> from \<open>s\<close>.
\<close>

definition honoured :: "nat \<Rightarrow> jsstring \<Rightarrow> int \<Rightarrow> popup \<Rightarrow> bool" where
  "honoured response_status url now s =
     (pendingTimers (fetch_interceptor response_status url now s) = pendingTimers s + 1)"

fun honoured_times :: "popup \<Rightarrow> event list \<Rightarrow> int list" where
  "honoured_times s [] = []"
| "honoured_times s (Fetch response_status url now issuer # evs) =
     (if honoured response_status url now s then [now] else [])
       @ honoured_times (step (Fetch response_status url now issuer) s) evs"
| "honoured_times s (ev # evs) = honoured_times (step ev s) evs"

subsection \<open>Observations and example inputs\<close>

text \<open>The calls logged and the items shown between the state \<open>s\<close> and a later state \<open>s'\<close>.\<close>

definition new_calls :: "popup \<Rightarrow> popup \<Rightarrow> call list" where
  "new_calls s s' = drop (length (calls s)) (calls s')"

definition new_items :: "popup \<Rightarrow> popup \<Rightarrow> ui_item list" where
  "new_items s s' = drop (length (shown s)) (shown s')"

text \<open>Retrievals, completions and summary requests among logged calls.\<close>

definition is_retrieval :: "call \<Rightarrow> bool" where
  "is_retrieval c = (case c of Retrieve q k t \<Rightarrow> True | _ \<Rightarrow> False)"

definition is_completion :: "call \<Rightarrow> bool" where
  "is_completion c =
     (case c of ChainStream ch ctx q \<Rightarrow> True | RetrievalStream sm ctx q \<Rightarrow> True | _ \<Rightarrow> False)"

definition is_summary :: "call \<Rightarrow> bool" where
  "is_summary c = (case c of Summarize sz text \<Rightarrow> True | _ \<Rightarrow> False)"





text \<open>Collaborators that all fail: no splitter, no embedding, no summary, empty streams.\<close>

definition no_env :: env where
  "no_env = \<lparr> split = (\<lambda>cfg text. None), embedQuery = (\<lambda>text. None),
              summaryInvoke = (\<lambda>sz text. None),
              chainStream = (\<lambda>c ctx q h. Stream [] None),
              retrievalStream = (\<lambda>m sm ctx q h. Stream [] None),
              truncationFirst = False \<rparr>"



definition example_url :: jsstring where
  "example_url = ascii ''https://example.org/article''"

definition example_entry :: cache_entry where
  "example_entry =
     \<lparr> cached_summary = Some (ascii ''A summary of the article.''),
       cached_vectorStore =
         Some \<lparr> cached_chunks = Some [ascii ''first chunk'', ascii ''second chunk''],
                cached_embeddings = Some [Some [1, 0], Some [0, 1]] \<rparr>,
       cached_timestamp = 1700000000000, cached_url = example_url \<rparr>"

definition cached_page :: "nat \<Rightarrow> popup" where
  "cached_page n =
     initial\<lparr> pageContent := Some (replicate n 0x61), currentTabId := Some 7,
              currentPageUrl := Some example_url,
              sessionStorage := (\<lambda>key. if key = (7, example_url) then Some example_entry
                                        else None) \<rparr>"

text \<open>
  Two questions, a URL of the provider, a rate-limit error, and runs of the popup. In
  \<open>ready_trace\<close> a page is loaded and processed and the first question is sent, with the
  request identifier \<open>first_request\<close>.
\<close>

definition example_question :: jsstring where
  "example_question = ascii ''What is the main idea?''"

definition second_question :: jsstring where
  "second_question = ascii ''And who wrote it?''"

definition gemini_url :: jsstring where
  "gemini_url = ascii ''https://generativelanguage.googleapis.com/v1beta/models/gemini:streamGenerateContent''"

definition rate_limit_error :: js_error where
  "rate_limit_error =
     \<lparr> errorMsg = ascii ''[GoogleGenerativeAI Error]: [429 Too Many Requests] quota exceeded'',
       errorString = ascii ''{}'', status = Some 429, responseStatus = None \<rparr>"

definition first_request :: jsstring where
  "first_request = ascii ''1700000005000-k3j9x0a1b''"

definition second_request :: jsstring where
  "second_request = ascii ''1700000006000-m4n5b6v7c''"

definition ready_trace :: "event list" where
  "ready_trace =
     [Load 7 example_url (ascii ''A short page about one thing.''), Process no_env 1700000000000,
      Send example_question (ascii ''1700000005000'') (ascii ''k3j9x0a1b'')]"

text \<open>Every model of the chain is rate limited in turn, and the user switches each time.\<close>

definition exhaust_trace :: "event list" where
  "exhaust_trace = ready_trace @
     [Fetch 429 gemini_url 1700000005400 (Some first_request), Timer,
      ClickSwitch (ascii ''1700000009000'') (ascii ''q1w2e3r4t''),
      Fetch 429 gemini_url 1700000009400 (Some (ascii ''1700000009000-q1w2e3r4t'')), Timer,
      ClickSwitch (ascii ''1700000013000'') (ascii ''a5s6d7f8g''),
      Fetch 429 gemini_url 1700000013400 (Some (ascii ''1700000013000-a5s6d7f8g'')), Timer,
      ClickSwitch (ascii ''1700000017000'') (ascii ''z9x8c7v6b'')]"

definition after_exhaustion :: "event list" where
  "after_exhaustion =
     [Fetch 429 gemini_url 1700000017400 (Some (ascii ''1700000017000-z9x8c7v6b'')), Timer]"

definition rate_limited_env :: env where
  "rate_limited_env = no_env\<lparr> chainStream := (\<lambda>c ctx q h. Stream [] (Some rate_limit_error)) \<rparr>"

text \<open>
  A first detection; then the failed call of \<^verbatim>\<open>handleSend\<close> ends and the user clicks the
  switch button.
\<close>

definition detected_trace :: "event list" where
  "detected_trace = ready_trace @ [Fetch 429 gemini_url 1700000005400 (Some first_request), Timer]"

definition switched_trace :: "event list" where
  "switched_trace = detected_trace @
     [SendDone 0 rate_limited_env, ClickSwitch (ascii ''1700000007100'') (ascii ''q1w2e3r4t'')]"

text \<open>A second question is sent with the Enter key while the first is under way.\<close>

definition overlapping_trace :: "event list" where
  "overlapping_trace = ready_trace @
     [Send second_question (ascii ''1700000006000'') (ascii ''m4n5b6v7c'')]"

text \<open>The content of the assistant message of a hybrid question when \<^verbatim>\<open>handleSend\<close> ends.\<close>

definition hybrid_display :: "env \<Rightarrow> chain \<Rightarrow> jsstring \<Rightarrow> jsstring \<Rightarrow> popup \<Rightarrow> display" where
  "hybrid_display e c summary q s =
     (case chainStream e c summary q (chatHistory s) of
        Stream chunks1 (Some err) \<Rightarrow> rendered Blank chunks1
      | Stream chunks1 None \<Rightarrow>
          if js_includes (concat chunks1) NEEDS_DETAIL
          then (let ctx = join chunk_separator
                            (retrieveRelevantChunks (embedQuery e) (vectorStore s) q 4 (1/2))
                in if ctx \<noteq> []
                   then (case retrievalStream e (getCurrentModel s) summary ctx q (chatHistory s) of
                           Stream chunks2 err \<Rightarrow> rendered (Searching (concat chunks1)) chunks2)
                   else Rendered NO_DETAILS_MESSAGE)
          else rendered Blank chunks1)"

text \<open>
  A popup in hybrid mode (restored from the cache entry above), a chat model that answers
  with the marker in both stages, and an embedder whose query vector is close to the
  first chunk, or to none.
\<close>

definition hybrid_state :: popup where
  "hybrid_state = processPageContent no_env 0 (cached_page 40000)"

definition escalating_env :: env where
  "escalating_env =
     \<lparr> split = (\<lambda>cfg text. None), embedQuery = (\<lambda>text. Some (Some [1, 0])),
       summaryInvoke = (\<lambda>sz text. None),
       chainStream = (\<lambda>c ctx q h. Stream [NEEDS_DETAIL, ascii '' the exact date''] None),
       retrievalStream =
         (\<lambda>m sm ctx q h. Stream [NEEDS_DETAIL @ ascii '' the date in section 2''] None),
       truncationFirst = False \<rparr>"

definition unhelpful_env :: env where
  "unhelpful_env = escalating_env\<lparr> embedQuery := (\<lambda>text. Some (Some [-1, 0])) \<rparr>"




section \<open>Theorems\<close>

subsection \<open>Strings and truncation\<close>

text \<open>The search of \<^verbatim>\<open>includes\<close> finds exactly the contiguous occurrences.\<close>

lemma starts_with_iff: "starts_with s t \<longleftrightarrow> (\<exists>r. s = t @ r)"
  by (induction s t rule: starts_with.induct) auto

lemma js_includes_iff: "js_includes s t \<longleftrightarrow> (\<exists>p r. s = p @ t @ r)"
proof (induction s)
  case Nil
  show ?case by auto
next
  case (Cons d s)
  show ?case
  proof
    assume "js_includes (d # s) t"
    then consider "starts_with (d # s) t" | "js_includes s t" by auto
    then show "\<exists>p r. d # s = p @ t @ r"
    proof cases
      case 1
      then obtain r where "d # s = t @ r" unfolding starts_with_iff ..
      then have "d # s = [] @ t @ r" by simp
      then show ?thesis by blast
    next
      case 2
      then obtain p r where "s = p @ t @ r" using Cons.IH by blast
      then have "d # s = (d # p) @ t @ r" by simp
      then show ?thesis by blast
    qed
  next
    assume "\<exists>p r. d # s = p @ t @ r"
    then obtain p r where e: "d # s = p @ t @ r" by blast
    show "js_includes (d # s) t"
    proof (cases p)
      case Nil
      with e have "starts_with (d # s) t" unfolding starts_with_iff by auto
      then show ?thesis by simp
    next
      case (Cons d' p')
      with e have "s = p' @ t @ r" by simp
      then have "js_includes s t" using Cons.IH by blast
      then show ?thesis by simp
    qed
  qed
qed

text \<open>
  C10. For every text whose length is at most the character budget \<open>maxChars\<close>,
  \<^verbatim>\<open>truncateMarkdownSafely\<close> returns the text unchanged, whatever the splitter would do:
  the splitter is not consulted and no truncation marker is appended.
\<close>

theorem truncateMarkdownSafely_within_budget:
  assumes "length markdown \<le> maxChars"
  shows "truncateMarkdownSafely splitter markdown maxChars = markdown"
  using assms by (simp add: truncateMarkdownSafely_def)

theorem truncateMarkdownSafely_within_budget_witness:
  "length (ascii ''# Title'') \<le> 50000
   \<and> truncateMarkdownSafely (\<lambda>cfg text. Some [ascii ''x'']) (ascii ''# Title'') 50000
       = ascii ''# Title''"
  using truncateMarkdownSafely_within_budget
          [of "ascii ''# Title''" 50000 "\<lambda>cfg text. Some [ascii ''x'']"]
  by (simp add: ascii_def)

subsection \<open>Double arithmetic\<close>

lemma round_even_int [simp]: "round_even (of_int n) = n"
  by (simp add: round_even_def)

lemma round_even_unique:
  assumes "of_int n - 1/2 < y" "y < of_int n + 1/2"
  shows "round_even y = n"
proof (cases "of_int n \<le> y")
  case True
  then have "\<lfloor>y\<rfloor> = n"
    using assms(2) by (intro floor_unique) simp_all
  then show ?thesis
    using assms(2) by (simp add: round_even_def)
next
  case False
  then have "\<lfloor>y\<rfloor> = n - 1"
    using assms(1) by (intro floor_unique) simp_all
  then show ?thesis
    using assms(1) False by (simp add: round_even_def)
qed


lemma powr_powi: "2 powr (of_int e) = (2::real) powi e"
  by (rule powr_real_of_int') (simp_all add: overflow_threshold_def)

lemma nonzero_above_power:
  assumes "2 powi e \<le> \<bar>x\<bar>"
  shows "x \<noteq> (0::real)"
proof
  assume "x = 0"
  with assms have "(2::real) powi e \<le> 0" by simp
  moreover have "(0::real) < 2 powi e" by (rule zero_less_power_int) simp
  ultimately show False by linarith
qed

lemma floor_log2:
  assumes "2 powi e \<le> \<bar>x\<bar>" "\<bar>x\<bar> < 2 powi (e + 1)"
  shows "\<lfloor>log 2 \<bar>x\<bar>\<rfloor> = e"
proof -
  have pos: "0 < \<bar>x\<bar>"
    using nonzero_above_power [OF assms(1)] by simp
  have "2 powr (of_int e + 1) = (2::real) powi (e + 1)"
    using powr_powi [of "e + 1"] by simp
  then show ?thesis
    using assms floor_log_eq_powr_iff [OF pos, of 2 e] by (simp add: powr_powi)
qed

text \<open>
  The double nearest to \<open>x\<close>, from the binade of \<open>x\<close> and the integer nearest to its
  significand; and the case of an \<open>x\<close> that is a double itself.
\<close>

lemma round_double_eval:
  assumes "2 powi e \<le> \<bar>x\<bar>" "\<bar>x\<bar> < 2 powi (e + 1)" "- 1022 \<le> e"
    and "of_int n - 1/2 < x / 2 powi (e - 52)" "x / 2 powi (e - 52) < of_int n + 1/2"
    and "\<bar>of_int n * 2 powi (e - 52)\<bar> < overflow_threshold"
  shows "round_double x = Num (of_int n * 2 powi (e - 52))"
proof -
  have "x \<noteq> 0" using assms(1) by (rule nonzero_above_power)
  moreover have "max e (- 1022) = e" using assms(3) by simp
  ultimately show ?thesis
    using assms(6)
    by (simp add: round_double_def floor_log2 [OF assms(1,2)] round_even_unique [OF assms(4,5)]
        Let_def)
qed

lemma round_double_exact:
  assumes "2 powi e \<le> \<bar>x\<bar>" "\<bar>x\<bar> < 2 powi (e + 1)" "- 1022 \<le> e"
    and "x / 2 powi (e - 52) = of_int n" and "\<bar>x\<bar> < overflow_threshold"
  shows "round_double x = Num x"
proof -
  have "x \<noteq> 0" using assms(1) by (rule nonzero_above_power)
  moreover have "max e (- 1022) = e" using assms(3) by simp
  moreover have "of_int n * 2 powi (e - 52) = x"
    using assms(4) by (simp add: field_simps)
  ultimately show ?thesis
    using assms(5)
    by (simp add: round_double_def floor_log2 [OF assms(1,2)] assms(4) Let_def)
qed

lemma round_double_0 [simp]: "round_double 0 = Num 0"
  by (simp add: round_double_def)

lemma round_double_1 [simp]: "round_double 1 = Num 1"
  by (rule round_double_exact [where e = 0 and n = "2 ^ 52"]) (simp_all add: overflow_threshold_def)

lemma round_double_minus_1 [simp]: "round_double (- 1) = Num (- 1)"
  by (rule round_double_exact [where e = 0 and n = "- (2 ^ 52)"]) (simp_all add: overflow_threshold_def)

lemma round_double_half [simp]: "round_double (1/2) = Num (1/2)"
  by (rule round_double_exact [where e = "-1" and n = "2 ^ 52"]) (simp_all add: overflow_threshold_def)

lemma round_double_2 [simp]: "round_double 2 = Num 2"
  by (rule round_double_exact [where e = 1 and n = "2 ^ 52"]) (simp_all add: overflow_threshold_def)

lemma round_double_3 [simp]: "round_double 3 = Num 3"
  by (rule round_double_exact [where e = 1 and n = "3 * 2 ^ 51"]) (simp_all add: overflow_threshold_def)

lemma round_double_4 [simp]: "round_double 4 = Num 4"
  by (rule round_double_exact [where e = 2 and n = "2 ^ 52"]) (simp_all add: overflow_threshold_def)

lemma round_double_6 [simp]: "round_double 6 = Num 6"
  by (rule round_double_exact [where e = 2 and n = "3 * 2 ^ 51"]) (simp_all add: overflow_threshold_def)

lemma round_double_8 [simp]: "round_double 8 = Num 8"
  by (rule round_double_exact [where e = 3 and n = "2 ^ 52"]) (simp_all add: overflow_threshold_def)

lemma round_double_12 [simp]: "round_double 12 = Num 12"
  by (rule round_double_exact [where e = 3 and n = "3 * 2 ^ 51"]) (simp_all add: overflow_threshold_def)

lemma round_double_16 [simp]: "round_double 16 = Num 16"
  by (rule round_double_exact [where e = 4 and n = "2 ^ 52"]) (simp_all add: overflow_threshold_def)

lemma sqrt_16 [simp]: "sqrt 16 = 4"
  by (rule real_sqrt_unique) simp_all


text \<open>
  The three roundings in the similarity of \<open>[1, 1, 1]\<close> with itself: the square root of
  3, its square, and the quotient of 3 by that square.
\<close>

lemma round_double_sqrt_3: "round_double (sqrt 3) = Num (7800463371553962 / 2 ^ 52)"
proof -
  have lo: "(7800463371553962 - 1/2) / 2 ^ 52 < sqrt 3"
    by (rule real_less_rsqrt) (simp add: power2_eq_square)
  have hi: "sqrt 3 < (7800463371553962 + 1/2) / 2 ^ 52"
    by (rule real_less_lsqrt) (simp_all add: power2_eq_square)
  have "round_double (sqrt 3) = Num (of_int 7800463371553962 * 2 powi (0 - 52))"
  proof (rule round_double_eval)
    show "2 powi 0 \<le> \<bar>sqrt 3\<bar>" by simp
    show "\<bar>sqrt 3\<bar> < 2 powi (0 + 1)"
      using hi by simp
    show "of_int 7800463371553962 - 1/2 < sqrt 3 / 2 powi (0 - 52)"
      using lo by (simp add: field_simps)
    show "sqrt 3 / 2 powi (0 - 52) < of_int 7800463371553962 + 1/2"
      using hi by (simp add: field_simps)
  qed (simp_all add: overflow_threshold_def)
  then show ?thesis by simp
qed

lemma round_double_square:
  "round_double (7800463371553962 / 2 ^ 52 * (7800463371553962 / 2 ^ 52))
     = Num (6755399441055743 / 2 ^ 51)"
proof -
  have "round_double (7800463371553962 / 2 ^ 52 * (7800463371553962 / 2 ^ 52))
      = Num (of_int 6755399441055743 * 2 powi (1 - 52))"
    by (rule round_double_eval) (simp_all add: field_simps overflow_threshold_def)
  then show ?thesis by simp
qed

lemma round_double_quotient:
  "round_double (3 / (6755399441055743 / 2 ^ 51)) = Num (4503599627370497 / 2 ^ 52)"
proof -
  have "round_double (3 / (6755399441055743 / 2 ^ 51))
      = Num (of_int 4503599627370497 * 2 powi (0 - 52))"
    by (rule round_double_eval) (simp_all add: field_simps overflow_threshold_def)
  then show ?thesis by simp
qed

subsection \<open>The call log of page processing\<close>





lemma no_summary_embeds [simp]: "filter is_summary (map Embed cs) = []"
  by (induction cs) (simp_all add: is_summary_def)

lemma no_summary_index_calls [simp]:
  "filter is_summary (case r of None \<Rightarrow> [] | Some cs \<Rightarrow> map Embed cs) = []"
  by (simp split: option.splits)



lemma calls_saveProcessingCache [simp]:
  "calls (saveProcessingCache tab u sm vs now s) = calls s"
  by (simp add: saveProcessingCache_def split: option.splits)

lemma fields_saveProcessingCache [simp]:
  "isLongDocument (saveProcessingCache tab u sm vs now s) = isLongDocument s"
  "useSummaryMode (saveProcessingCache tab u sm vs now s) = useSummaryMode s"
  "useHybridMode (saveProcessingCache tab u sm vs now s) = useHybridMode s"
  "modeBadge (saveProcessingCache tab u sm vs now s) = modeBadge s"
  "chain (saveProcessingCache tab u sm vs now s) = chain s"
  "documentSummary (saveProcessingCache tab u sm vs now s) = documentSummary s"
  "vectorStore (saveProcessingCache tab u sm vs now s) = vectorStore s"
  by (simp_all add: saveProcessingCache_def split: option.splits)

lemma calls_initLangChain [simp]: "calls (initLangChain m s) = calls s"
  by (simp add: initLangChain_def)

lemma calls_updateModeBadge [simp]: "calls (updateModeBadge m s) = calls s"
  by (simp add: updateModeBadge_def)

lemma fields_initLangChain [simp]:
  "modeBadge (initLangChain m s) = modeBadge s"
  "useHybridMode (initLangChain m s) = useHybridMode s"
  "isLongDocument (initLangChain m s) = isLongDocument s"
  "useSummaryMode (initLangChain m s) = useSummaryMode s"
  "documentSummary (initLangChain m s) = documentSummary s"
  "vectorStore (initLangChain m s) = vectorStore s"
  "chain (initLangChain m s) = Some (m, getCurrentModel s)"
  by (simp_all add: initLangChain_def)

lemma fields_updateModeBadge [simp]:
  "modeBadge (updateModeBadge m s) = Some m"
  "useHybridMode (updateModeBadge m s) = useHybridMode s"
  "isLongDocument (updateModeBadge m s) = isLongDocument s"
  "useSummaryMode (updateModeBadge m s) = useSummaryMode s"
  "documentSummary (updateModeBadge m s) = documentSummary s"
  "vectorStore (updateModeBadge m s) = vectorStore s"
  "currentModelIndex (updateModeBadge m s) = currentModelIndex s"
  by (simp_all add: updateModeBadge_def)

lemma getCurrentModel_index:
  "currentModelIndex s' = currentModelIndex s \<Longrightarrow> getCurrentModel s' = getCurrentModel s"
  by (simp add: getCurrentModel_def)

subsection \<open>The router\<close>












subsection \<open>The warm path\<close>

lemma fields_restore_cached:
  "documentSummary (restore_cached cached cvs s) = or_null (cached_summary cached)"
  "vectorStore (restore_cached cached cvs s) \<noteq> None \<longleftrightarrow>
     (cached_chunks cvs \<noteq> None \<and> cached_embeddings cvs \<noteq> None) \<or> vectorStore s \<noteq> None"
  "calls (restore_cached cached cvs s) = calls s"
  by (auto simp add: restore_cached_def Let_def split: option.splits)

lemma truthy_or_null [simp]: "truthy (or_null x) = truthy x"
  by (simp add: truthy_def or_null_def split: option.splits)

text \<open>
  C6, as amended. On a cache hit (an entry with index data for the page's URL), a page
  whose current token estimate is below 10,000 is routed Direct whatever the entry
  holds. Otherwise the routing follows from what is present: a summary and an index
  give Hybrid, an index alone gives PureRetrieval (RAG), no index gives Direct. The
  index is present when the entry has both the chunks and the embeddings, or when a
  store is already in memory. The chain, the mode flags and the badge agree, and no
  collaborator is called.
\<close>

theorem warm_hit_routing:
  assumes "or_null (pageContent s) = Some markdown"
    and "loadProcessingCache (currentTabId s) (currentPageUrl s) s = Some cached"
    and "cached_vectorStore cached = Some cvs"
  shows "modeBadge (processPageContent e now s) =
           Some (if estimatedTokens markdown < 10000 then Stuffing
                 else if truthy (cached_summary cached)
                       \<and> ((cached_chunks cvs \<noteq> None \<and> cached_embeddings cvs \<noteq> None)
                            \<or> vectorStore s \<noteq> None)
                   then Hybrid
                 else if (cached_chunks cvs \<noteq> None \<and> cached_embeddings cvs \<noteq> None)
                         \<or> vectorStore s \<noteq> None
                   then RAG
                 else Stuffing)
     \<and> map_option fst (chain (processPageContent e now s)) = modeBadge (processPageContent e now s)
     \<and> useHybridMode (processPageContent e now s) = (modeBadge (processPageContent e now s) = Some Hybrid)
     \<and> isLongDocument (processPageContent e now s) = (modeBadge (processPageContent e now s) = Some RAG)
     \<and> calls (processPageContent e now s) = calls s"
proof -
  have "processPageContent e now s = process_cached markdown cached cvs s"
    using assms by (simp add: processPageContent_def)
  moreover have "truthy (documentSummary (restore_cached cached cvs s)) = truthy (cached_summary cached)"
    by (simp add: fields_restore_cached)
  moreover note fields_restore_cached(2,3) [of cached cvs s]
  ultimately show ?thesis
    by (simp add: process_cached_def Let_def del: not_None_eq)
qed

text \<open>
  The claim as stated fails: with a summary and an index in the cache entry, a page of
  39,996 characters (estimate 9,999) is routed Direct, not Hybrid.
\<close>

theorem warm_hit_counterexample:
  "or_null (pageContent (cached_page 39996)) = Some (replicate 39996 0x61)
   \<and> loadProcessingCache (currentTabId (cached_page 39996)) (currentPageUrl (cached_page 39996))
        (cached_page 39996) = Some example_entry
   \<and> truthy (cached_summary example_entry)
   \<and> map_option cached_chunks (cached_vectorStore example_entry)
        = Some (Some [ascii ''first chunk'', ascii ''second chunk''])
   \<and> map_option cached_embeddings (cached_vectorStore example_entry)
        = Some (Some [Some [1, 0], Some [0, 1]])
   \<and> modeBadge (processPageContent no_env 0 (cached_page 39996)) = Some Stuffing
   \<and> useHybridMode (processPageContent no_env 0 (cached_page 39996)) = False"
  by (simp add: or_null_def cached_page_def initial_def loadProcessingCache_def example_entry_def
      example_url_def ascii_def truthy_def processPageContent_def process_cached_def
      restore_cached_def estimatedTokens_def Let_def)

theorem warm_hit_routing_witness:
  "or_null (pageContent (cached_page 40000)) = Some (replicate 40000 0x61)
   \<and> loadProcessingCache (currentTabId (cached_page 40000)) (currentPageUrl (cached_page 40000))
        (cached_page 40000) = Some example_entry
   \<and> cached_vectorStore example_entry =
        Some \<lparr> cached_chunks = Some [ascii ''first chunk'', ascii ''second chunk''],
               cached_embeddings = Some [Some [1, 0], Some [0, 1]] \<rparr>
   \<and> modeBadge (processPageContent no_env 0 (cached_page 40000)) = Some Hybrid
   \<and> useHybridMode (processPageContent no_env 0 (cached_page 40000))
   \<and> calls (processPageContent no_env 0 (cached_page 40000)) = []"
proof -
  have h1: "or_null (pageContent (cached_page 40000)) = Some (replicate 40000 0x61)"
    by (simp add: or_null_def cached_page_def)
  have h2: "loadProcessingCache (currentTabId (cached_page 40000))
        (currentPageUrl (cached_page 40000)) (cached_page 40000) = Some example_entry"
    by (simp add: cached_page_def initial_def loadProcessingCache_def example_entry_def
        example_url_def ascii_def)
  have h3: "cached_vectorStore example_entry =
        Some \<lparr> cached_chunks = Some [ascii ''first chunk'', ascii ''second chunk''],
               cached_embeddings = Some [Some [1, 0], Some [0, 1]] \<rparr>"
    by (simp add: example_entry_def)
  have r: "\<not> estimatedTokens (replicate 40000 0x61) < 10000"
    "truthy (cached_summary example_entry)"
    by (simp_all add: estimatedTokens_def truthy_def example_entry_def ascii_def)
  have c: "calls (cached_page 40000) = []"
    by (simp add: cached_page_def initial_def)
  show ?thesis
    using warm_hit_routing [OF h1 h2 h3, of no_env 0] h1 h2 h3 r c by simp
qed

subsection \<open>The fallback chain\<close>

lemma length_chain [simp]: "length MODEL_FALLBACK_CHAIN = 4"
  by (simp add: MODEL_FALLBACK_CHAIN_def)

lemma idx_small [simp]:
  "currentModelIndex (log_call c s) = currentModelIndex s"
  "currentModelIndex (show_item i s) = currentModelIndex s"
  "currentModelIndex (initLangChain m s) = currentModelIndex s"
  "currentModelIndex (push_history q r s) = currentModelIndex s"
  "currentModelIndex (saveProcessingCache tab u sm vs now s) = currentModelIndex s"
  "currentModelIndex (showFinalRateLimitMessage s) = currentModelIndex s"
  by (simp_all add: log_call_def show_item_def initLangChain_def updateModeBadge_def
      push_history_def saveProcessingCache_def showFinalRateLimitMessage_def split: option.splits)

lemma idx_showModelSwitchPrompt [simp]:
  "currentModelIndex (showModelSwitchPrompt s) = currentModelIndex s"
  by (simp add: showModelSwitchPrompt_def split: option.splits)

lemma idx_generateSummary [simp]:
  "currentModelIndex (generateSummary e md sz s) = currentModelIndex s"
  by (simp add: generateSummary_def Let_def split: option.splits)

lemma idx_setupRAGPipeline [simp]:
  "currentModelIndex (setupRAGPipeline e md s) = currentModelIndex s"
  by (simp add: setupRAGPipeline_def Let_def split: option.splits)

lemma idx_summary_and_index [simp]:
  "currentModelIndex (summary_and_index e md sz s) = currentModelIndex s"
  by (simp add: summary_and_index_def Let_def)

lemma idx_restore_cached [simp]:
  "currentModelIndex (restore_cached c cvs s) = currentModelIndex s"
  by (simp add: restore_cached_def Let_def split: option.splits)

lemma idx_paths [simp]:
  "currentModelIndex (path_direct s) = currentModelIndex s"
  "currentModelIndex (path_hybrid_compact e now md s) = currentModelIndex s"
  "currentModelIndex (path_hybrid_standard e now md s) = currentModelIndex s"
  "currentModelIndex (path_pure_retrieval e now md s) = currentModelIndex s"
  "currentModelIndex (process_cached md c cvs s) = currentModelIndex s"
  by (simp_all add: path_direct_def path_hybrid_compact_def path_hybrid_standard_def
      path_pure_retrieval_def process_cached_def Let_def)

lemma idx_processPageContent [simp]:
  "currentModelIndex (processPageContent e now s) = currentModelIndex s"
  by (simp add: processPageContent_def process_cold_def split: option.splits route.splits)

lemma idx_hybrid_answer [simp]:
  "currentModelIndex (fst (hybrid_answer e c sm q s)) = currentModelIndex s"
  by (simp add: hybrid_answer_def Let_def split: stream_result.splits option.splits)

lemma idx_single_answer [simp]:
  "currentModelIndex (fst (single_answer e c ctx q s)) = currentModelIndex s"
  by (simp add: single_answer_def Let_def split: stream_result.splits option.splits)

lemma idx_rag_answer [simp]:
  "currentModelIndex (fst (rag_answer e c q s)) = currentModelIndex s"
  by (simp add: rag_answer_def Let_def)

lemma idx_direct_answer [simp]:
  "currentModelIndex (fst (direct_answer e c text q s)) = currentModelIndex s"
  by (simp add: direct_answer_def Let_def)

lemma idx_try_block [simp]:
  "currentModelIndex (fst (try_block e c text q s)) = currentModelIndex s"
  by (simp add: try_block_def Let_def split_beta split: option.splits)

lemma idx_catch_block [simp]:
  "currentModelIndex (catch_block er q s) = currentModelIndex s"
  by (simp add: catch_block_def Let_def)

lemma idx_handleSend_finish [simp]:
  "currentModelIndex (handleSend_finish e q s) = currentModelIndex s"
  by (simp add: handleSend_finish_def Let_def split_beta split: option.splits)

lemma idx_handleSend_start:
  "handleSend_start q stamp rnd s = Some s' \<Longrightarrow> currentModelIndex s' = currentModelIndex s"
  by (auto simp add: handleSend_start_def split: if_splits)

lemma idx_fetch_interceptor [simp]:
  "currentModelIndex (fetch_interceptor st url now s) = currentModelIndex s"
  by (simp add: fetch_interceptor_def)

lemma getNextModel_fields [simp]:
  "getNextModel (s\<lparr> lastFailedQuestion := x \<rparr>) = getNextModel s"
  "getNextModel (s\<lparr> rateLimitPromptShown := b \<rparr>) = getNextModel s"
  "getNextModel (s\<lparr> isHandlingRateLimit := b \<rparr>) = getNextModel s"
  "getNextModel (s\<lparr> pendingTimers := n \<rparr>) = getNextModel s"
  by (simp_all add: getNextModel_def)

lemma idx_rate_limit_callback [simp]:
  "currentModelIndex (rate_limit_callback s) = currentModelIndex s"
  by (simp add: rate_limit_callback_def Let_def split: option.splits)

lemma idx_click_cancel [simp]:
  "currentModelIndex (click_cancel s) = currentModelIndex s"
  by (simp add: click_cancel_def)

lemma getNextModel_None: "getNextModel s = None \<longleftrightarrow> 3 \<le> currentModelIndex s"
  by (auto simp add: getNextModel_def)

lemma idx_switchToNextModel:
  "currentModelIndex (fst (switchToNextModel s)) =
     (if currentModelIndex s < 3 then currentModelIndex s + 1 else currentModelIndex s)"
  "snd (switchToNextModel s) = (currentModelIndex s < 3)"
  by (auto simp add: switchToNextModel_def getNextModel_def Let_def split: option.splits)

lemma idx_click_switch:
  "currentModelIndex (click_switch stamp rnd s) =
     (if currentModelIndex s < 3 then currentModelIndex s + 1 else currentModelIndex s)"
proof -
  let ?s1 = "s\<lparr> openPrompts := openPrompts s - 1, rateLimitPromptShown := False,
                 isHandlingRateLimit := False, lastRateLimitTime := 0 \<rparr>"
  have a: "currentModelIndex (fst (switchToNextModel ?s1)) =
     (if currentModelIndex s < 3 then currentModelIndex s + 1 else currentModelIndex s)"
    by (simp add: idx_switchToNextModel)
  show ?thesis
    unfolding click_switch_def Let_def split_beta
    using a by (auto split: option.splits dest!: idx_handleSend_start)
qed

lemma idx_step:
  "currentModelIndex (step ev s) =
     (case ev of
        ClickSwitch stamp rnd \<Rightarrow>
          if openPrompts s > 0 \<and> currentModelIndex s < 3 then currentModelIndex s + 1
          else currentModelIndex s
      | _ \<Rightarrow> currentModelIndex s)"
  by (cases ev) (auto simp add: idx_click_switch split: option.splits dest: idx_handleSend_start)

lemma run_append: "run s (evs @ evs') = run (run s evs) evs'"
  by (induction evs arbitrary: s) simp_all

lemma idx_step_bounds:
  "currentModelIndex s \<le> currentModelIndex (step ev s)"
  "currentModelIndex s < 4 \<Longrightarrow> currentModelIndex (step ev s) < 4"
  by (simp_all add: idx_step split: event.splits)

lemma idx_run_mono: "currentModelIndex s \<le> currentModelIndex (run s evs)"
proof (induction evs arbitrary: s)
  case Nil
  show ?case by simp
next
  case (Cons ev evs)
  have "currentModelIndex s \<le> currentModelIndex (step ev s)"
    by (rule idx_step_bounds)
  also have "\<dots> \<le> currentModelIndex (run (step ev s) evs)"
    by (rule Cons.IH)
  finally show ?case by simp
qed

lemma run_index_in_range:
  "currentModelIndex s < 4 \<Longrightarrow> currentModelIndex (run s evs) < 4"
  by (induction evs arbitrary: s) (simp_all add: idx_step_bounds)

lemma chain_names_distinct:
  assumes "i < 4" and "j < 4"
    and "name (MODEL_FALLBACK_CHAIN ! i) = name (MODEL_FALLBACK_CHAIN ! j)"
  shows "i = j"
proof -
  have "i \<in> {0, 1, 2, 3}" and "j \<in> {0, 1, 2, 3}"
    using assms(1,2) by auto
  then show ?thesis
    using assms(3) by (auto simp add: MODEL_FALLBACK_CHAIN_def ascii_def)
qed

lemma shown_callback_exhausted:
  assumes "getNextModel s = None"
  shows "shown (rate_limit_callback s) = shown s @ [FinalRateLimitMessage]"
    and "openPrompts (rate_limit_callback s) = openPrompts s"
  using assms
  by (simp_all add: rate_limit_callback_def Let_def showFinalRateLimitMessage_def show_item_def
      split: option.splits)

lemma shown_prompt_exhausted:
  assumes "getNextModel s = None"
  shows "shown (showModelSwitchPrompt s) = shown s @ [FinalRateLimitMessage]"
    and "openPrompts (showModelSwitchPrompt s) = openPrompts s"
  using assms
  by (simp_all add: showModelSwitchPrompt_def showFinalRateLimitMessage_def show_item_def)

lemma shown_catch_exhausted:
  assumes "getNextModel s = None" and "isRateLimit er"
  shows "shown (catch_block er q s) = shown s @ [FinalRateLimitMessage]"
    and "openPrompts (catch_block er q s) = openPrompts s"
  using assms
  by (simp_all add: catch_block_def Let_def shown_prompt_exhausted)

text \<open>
  C7. From a state whose cursor is inside the chain (the initial state is one), in every
  run of the popup the cursor stays inside the chain and never decreases, and a model
  that the run has left is not current again later. \<^verbatim>\<open>getNextModel\<close> yields no model
  exactly when the cursor is at the last entry, and \<^verbatim>\<open>switchToNextModel\<close> then returns
  false and leaves the cursor, while otherwise it advances the cursor by one. Once the
  chain is exhausted it stays exhausted, and a further rate-limit detection, by the
  callback of the fetch interceptor or by the error handler of \<^verbatim>\<open>handleSend\<close>, appends
  the final all-models message and opens no switch prompt.
\<close>

theorem fallback_chain_forward:
  assumes "currentModelIndex s < length MODEL_FALLBACK_CHAIN"
  shows "currentModelIndex (run s evs) < length MODEL_FALLBACK_CHAIN
    \<and> currentModelIndex s \<le> currentModelIndex (run s evs)
    \<and> (getCurrentModel (run s (evs @ evs')) = getCurrentModel s
         \<longrightarrow> getCurrentModel (run s evs) = getCurrentModel s)
    \<and> (getNextModel s = None \<longleftrightarrow> currentModelIndex s = length MODEL_FALLBACK_CHAIN - 1)
    \<and> (snd (switchToNextModel s) \<longleftrightarrow> getNextModel s \<noteq> None)
    \<and> currentModelIndex (fst (switchToNextModel s)) =
         (if getNextModel s = None then currentModelIndex s else currentModelIndex s + 1)
    \<and> (getNextModel s = None \<longrightarrow>
         getNextModel (run s evs) = None
         \<and> shown (rate_limit_callback s) = shown s @ [FinalRateLimitMessage]
         \<and> openPrompts (rate_limit_callback s) = openPrompts s
         \<and> (isRateLimit er \<longrightarrow>
              shown (catch_block er q s) = shown s @ [FinalRateLimitMessage]
              \<and> openPrompts (catch_block er q s) = openPrompts s))"
proof -
  from assms have b: "currentModelIndex s < 4" by simp
  have r: "currentModelIndex (run s evs) < 4"
    using b by (rule run_index_in_range)
  have r': "currentModelIndex (run s (evs @ evs')) < 4"
    using b by (rule run_index_in_range)
  have m: "currentModelIndex s \<le> currentModelIndex (run s evs)"
    by (rule idx_run_mono)
  have m': "currentModelIndex (run s evs) \<le> currentModelIndex (run s (evs @ evs'))"
    unfolding run_append by (rule idx_run_mono)
  have revisit: "getCurrentModel (run s evs) = getCurrentModel s"
    if "getCurrentModel (run s (evs @ evs')) = getCurrentModel s"
  proof -
    from that have "currentModelIndex (run s (evs @ evs')) = currentModelIndex s"
      unfolding getCurrentModel_def using chain_names_distinct [OF r' b] by blast
    with m m' have "currentModelIndex (run s evs) = currentModelIndex s" by simp
    then show ?thesis by (simp add: getCurrentModel_def)
  qed
  have n: "getNextModel s = None \<longleftrightarrow> currentModelIndex s = length MODEL_FALLBACK_CHAIN - 1"
    using b by (auto simp add: getNextModel_None)
  have sw: "snd (switchToNextModel s) \<longleftrightarrow> getNextModel s \<noteq> None"
    "currentModelIndex (fst (switchToNextModel s)) =
         (if getNextModel s = None then currentModelIndex s else currentModelIndex s + 1)"
    by (auto simp add: idx_switchToNextModel getNextModel_None)
  have stay: "getNextModel (run s evs) = None" if "getNextModel s = None"
    using that m by (simp add: getNextModel_None)
  show ?thesis
    using r m revisit n sw stay shown_callback_exhausted shown_catch_exhausted
    by simp
qed

text \<open>The definitions that evaluate a run on concrete events.\<close>

lemmas eval_defs = initial_def no_env_def example_url_def example_question_def gemini_url_def
  processPageContent_def process_cold_def path_direct_def loadProcessingCache_def or_null_def
  truthy_def estimatedTokens_def classify_def initLangChain_def updateModeBadge_def
  getCurrentModel_def getNextModel_def handleSend_start_def show_item_def fetch_interceptor_def
  GEMINI_HOST_def RATE_LIMIT_COOLDOWN_def rate_limit_callback_def last_user_message_def
  showModelSwitchPrompt_def showFinalRateLimitMessage_def click_switch_def switchToNextModel_def
  click_cancel_def Let_def

lemma ex1: "currentModelIndex (run initial exhaust_trace) = 3"
  by (simp add: exhaust_trace_def ready_trace_def eval_defs ascii_def)

theorem fallback_chain_forward_witness:
  "currentModelIndex (run initial exhaust_trace) < length MODEL_FALLBACK_CHAIN
   \<and> currentModelIndex (run initial exhaust_trace) = length MODEL_FALLBACK_CHAIN - 1
   \<and> getNextModel (run initial exhaust_trace) = None
   \<and> isRateLimit rate_limit_error
   \<and> getCurrentModel (run (run initial exhaust_trace) (after_exhaustion @ [ClickCancel]))
       = getCurrentModel (run initial exhaust_trace)
   \<and> getCurrentModel (run (run initial exhaust_trace) after_exhaustion)
       = getCurrentModel (run initial exhaust_trace)
   \<and> \<not> snd (switchToNextModel (run initial exhaust_trace))
   \<and> getNextModel (run (run initial exhaust_trace) after_exhaustion) = None
   \<and> shown (rate_limit_callback (run initial exhaust_trace))
       = shown (run initial exhaust_trace) @ [FinalRateLimitMessage]
   \<and> shown (catch_block rate_limit_error example_question (run initial exhaust_trace))
       = shown (run initial exhaust_trace) @ [FinalRateLimitMessage]"
proof -
  have i: "currentModelIndex (run initial exhaust_trace) = 3"
    by (simp add: exhaust_trace_def ready_trace_def eval_defs ascii_def)
  have h: "currentModelIndex (run initial exhaust_trace) < length MODEL_FALLBACK_CHAIN"
    by (simp add: i)
  have n: "getNextModel (run initial exhaust_trace) = None"
    by (simp add: getNextModel_def i)
  have e: "isRateLimit rate_limit_error"
    by (simp add: isRateLimit_def rate_limit_error_def)
  have j: "currentModelIndex (run (run initial exhaust_trace) (after_exhaustion @ [ClickCancel])) = 3"
    unfolding run_append [symmetric]
    by (simp add: exhaust_trace_def ready_trace_def after_exhaustion_def eval_defs ascii_def)
  have g: "getCurrentModel (run (run initial exhaust_trace) (after_exhaustion @ [ClickCancel]))
       = getCurrentModel (run initial exhaust_trace)"
    by (simp add: getCurrentModel_def i j)
  show ?thesis
    using fallback_chain_forward [OF h, of after_exhaustion "[ClickCancel]" rate_limit_error
        example_question] i n e g
    by simp
qed

subsection \<open>Rate-limit detection\<close>

lemma lrt_small [simp]:
  "lastRateLimitTime (log_call c s) = lastRateLimitTime s"
  "lastRateLimitTime (show_item i s) = lastRateLimitTime s"
  "lastRateLimitTime (initLangChain m s) = lastRateLimitTime s"
  "lastRateLimitTime (updateModeBadge m s) = lastRateLimitTime s"
  "lastRateLimitTime (push_history q r s) = lastRateLimitTime s"
  "lastRateLimitTime (saveProcessingCache tab u sm vs now s) = lastRateLimitTime s"
  "lastRateLimitTime (showFinalRateLimitMessage s) = lastRateLimitTime s"
  by (simp_all add: log_call_def show_item_def initLangChain_def updateModeBadge_def
      push_history_def saveProcessingCache_def showFinalRateLimitMessage_def split: option.splits)

lemma lrt_showModelSwitchPrompt [simp]:
  "lastRateLimitTime (showModelSwitchPrompt s) = lastRateLimitTime s"
  by (simp add: showModelSwitchPrompt_def split: option.splits)

lemma lrt_generateSummary [simp]:
  "lastRateLimitTime (generateSummary e md sz s) = lastRateLimitTime s"
  by (simp add: generateSummary_def Let_def split: option.splits)

lemma lrt_setupRAGPipeline [simp]:
  "lastRateLimitTime (setupRAGPipeline e md s) = lastRateLimitTime s"
  by (simp add: setupRAGPipeline_def Let_def split: option.splits)

lemma lrt_summary_and_index [simp]:
  "lastRateLimitTime (summary_and_index e md sz s) = lastRateLimitTime s"
  by (simp add: summary_and_index_def Let_def)

lemma lrt_restore_cached [simp]:
  "lastRateLimitTime (restore_cached c cvs s) = lastRateLimitTime s"
  by (simp add: restore_cached_def Let_def split: option.splits)

lemma lrt_paths [simp]:
  "lastRateLimitTime (path_direct s) = lastRateLimitTime s"
  "lastRateLimitTime (path_hybrid_compact e now md s) = lastRateLimitTime s"
  "lastRateLimitTime (path_hybrid_standard e now md s) = lastRateLimitTime s"
  "lastRateLimitTime (path_pure_retrieval e now md s) = lastRateLimitTime s"
  "lastRateLimitTime (process_cached md c cvs s) = lastRateLimitTime s"
  by (simp_all add: path_direct_def path_hybrid_compact_def path_hybrid_standard_def
      path_pure_retrieval_def process_cached_def Let_def)

lemma lrt_processPageContent [simp]:
  "lastRateLimitTime (processPageContent e now s) = lastRateLimitTime s"
  by (simp add: processPageContent_def process_cold_def split: option.splits route.splits)

lemma lrt_hybrid_answer [simp]:
  "lastRateLimitTime (fst (hybrid_answer e c sm q s)) = lastRateLimitTime s"
  by (simp add: hybrid_answer_def Let_def split: stream_result.splits option.splits)

lemma lrt_single_answer [simp]:
  "lastRateLimitTime (fst (single_answer e c ctx q s)) = lastRateLimitTime s"
  by (simp add: single_answer_def Let_def split: stream_result.splits option.splits)

lemma lrt_rag_answer [simp]:
  "lastRateLimitTime (fst (rag_answer e c q s)) = lastRateLimitTime s"
  by (simp add: rag_answer_def Let_def)

lemma lrt_direct_answer [simp]:
  "lastRateLimitTime (fst (direct_answer e c text q s)) = lastRateLimitTime s"
  by (simp add: direct_answer_def Let_def)

lemma lrt_try_block [simp]:
  "lastRateLimitTime (fst (try_block e c text q s)) = lastRateLimitTime s"
  by (simp add: try_block_def Let_def split_beta split: option.splits)

lemma lrt_catch_block [simp]:
  "lastRateLimitTime (catch_block er q s) = lastRateLimitTime s"
  by (simp add: catch_block_def Let_def)

lemma lrt_handleSend_finish [simp]:
  "lastRateLimitTime (handleSend_finish e q s) = lastRateLimitTime s"
  by (simp add: handleSend_finish_def Let_def split_beta split: option.splits)

lemma lrt_handleSend_start:
  "handleSend_start q stamp rnd s = Some s' \<Longrightarrow> lastRateLimitTime s' = lastRateLimitTime s"
  by (auto simp add: handleSend_start_def split: if_splits)

lemma lrt_rate_limit_callback [simp]:
  "lastRateLimitTime (rate_limit_callback s) = lastRateLimitTime s"
  by (simp add: rate_limit_callback_def Let_def split: option.splits)

lemma lrt_switchToNextModel [simp]:
  "lastRateLimitTime (fst (switchToNextModel s)) = lastRateLimitTime s"
  by (simp add: switchToNextModel_def Let_def split: option.splits)

lemma lrt_click_switch [simp]: "lastRateLimitTime (click_switch stamp rnd s) = 0"
  unfolding click_switch_def Let_def split_beta
  by (auto split: option.splits dest!: lrt_handleSend_start)

lemma honoured_iff:
  "honoured st url now s \<longleftrightarrow>
     st = 429 \<and> js_includes url GEMINI_HOST \<and> truthy (activeRequestId s)
     \<and> now - lastRateLimitTime s \<ge> RATE_LIMIT_COOLDOWN \<and> \<not> isHandlingRateLimit s"
  by (auto simp add: honoured_def fetch_interceptor_def)

lemma lrt_fetch:
  "lastRateLimitTime (fetch_interceptor st url now s) =
     (if honoured st url now s then now else lastRateLimitTime s)"
  by (simp add: honoured_def fetch_interceptor_def)

lemma fetch_interceptor_honoured:
  "fetch_interceptor st url now s =
     (if honoured st url now s
      then s\<lparr> lastRateLimitTime := now, isHandlingRateLimit := True,
              pendingTimers := pendingTimers s + 1 \<rparr>
      else s)"
  by (simp add: honoured_def fetch_interceptor_def)

lemma lrt_step:
  "lastRateLimitTime (step ev s) =
     (case ev of
        Fetch st url now issuer \<Rightarrow> if honoured st url now s then now else lastRateLimitTime s
      | ClickSwitch stamp rnd \<Rightarrow> if openPrompts s > 0 then 0 else lastRateLimitTime s
      | ClickCancel \<Rightarrow> if openPrompts s > 0 then 0 else lastRateLimitTime s
      | _ \<Rightarrow> lastRateLimitTime s)"
  by (cases ev)
    (auto simp add: lrt_fetch click_cancel_def split: option.splits dest: lrt_handleSend_start)

lemma lrt_run:
  "lastRateLimitTime (run s evs) = 0
   \<or> lastRateLimitTime (run s evs) = last (lastRateLimitTime s # honoured_times s evs)"
proof (induction evs arbitrary: s)
  case Nil
  show ?case by simp
next
  case (Cons ev evs)
  note IH = Cons.IH [of "step ev s"]
  show ?case
  proof (cases ev)
    case (Fetch st url now issuer)
    then show ?thesis
      using IH by (auto simp add: lrt_fetch)
  qed (use IH lrt_step [of ev s] in \<open>auto split: if_splits\<close>)
qed

lemma catch_rate_limit:
  "isRateLimit er \<Longrightarrow>
     catch_block er q s = showModelSwitchPrompt (s\<lparr> lastFailedQuestion := Some q \<rparr>)"
  by (simp add: catch_block_def)

text \<open>
  C8, as amended. A 429 response that passes the fetch interceptor is honoured (it
  starts the model-switch flow: the time is recorded, the handling flag is set and the
  callback that shows the prompt is left waiting) if and only if it comes from the
  provider's host and (a) a request identifier is active, (b) at least 3000 ms have
  passed since \<open>lastRateLimitTime\<close>, and (c) no detection is being handled; a response
  that is not honoured changes nothing. The interceptor does not know which call of
  \<^verbatim>\<open>handleSend\<close> issued the request: it treats every issuer alike. \<open>lastRateLimitTime\<close>
  is written by an honoured detection, which records its time, and by a click on a
  button of a switch prompt, which resets it to 0, and by nothing else; so in every run
  from the initial state it is 0 or the time of the last honoured detection. The error
  handler of \<^verbatim>\<open>handleSend\<close> is outside the guards: for a rate-limit error it shows the
  switch prompt in any state.
\<close>

theorem rate_limit_guards:
  "(honoured response_status url now s \<longleftrightarrow>
      response_status = 429 \<and> js_includes url GEMINI_HOST
      \<and> truthy (activeRequestId s)
      \<and> now - lastRateLimitTime s \<ge> 3000
      \<and> \<not> isHandlingRateLimit s)
   \<and> step (Fetch response_status url now issuer) s =
       (if honoured response_status url now s
        then s\<lparr> lastRateLimitTime := now, isHandlingRateLimit := True,
                pendingTimers := pendingTimers s + 1 \<rparr>
        else s)
   \<and> lastRateLimitTime (step ev s) =
       (case ev of
          Fetch st u t i \<Rightarrow> if honoured st u t s then t else lastRateLimitTime s
        | ClickSwitch stamp rnd \<Rightarrow> if openPrompts s > 0 then 0 else lastRateLimitTime s
        | ClickCancel \<Rightarrow> if openPrompts s > 0 then 0 else lastRateLimitTime s
        | _ \<Rightarrow> lastRateLimitTime s)
   \<and> (lastRateLimitTime (run initial evs) = 0
        \<or> honoured_times initial evs \<noteq> []
           \<and> lastRateLimitTime (run initial evs) = last (honoured_times initial evs))
   \<and> (isRateLimit er \<longrightarrow>
        catch_block er q s = showModelSwitchPrompt (s\<lparr> lastFailedQuestion := Some q \<rparr>))"
proof -
  have "lastRateLimitTime (run initial evs) = 0
    \<or> lastRateLimitTime (run initial evs) = last (lastRateLimitTime initial # honoured_times initial evs)"
    by (rule lrt_run)
  moreover have "lastRateLimitTime initial = 0"
    by (simp add: initial_def)
  ultimately have r: "lastRateLimitTime (run initial evs) = 0
        \<or> honoured_times initial evs \<noteq> []
           \<and> lastRateLimitTime (run initial evs) = last (honoured_times initial evs)"
    by (cases "honoured_times initial evs = []") auto
  have h: "honoured response_status url now s \<longleftrightarrow>
      response_status = 429 \<and> js_includes url GEMINI_HOST
      \<and> truthy (activeRequestId s)
      \<and> now - lastRateLimitTime s \<ge> 3000
      \<and> \<not> isHandlingRateLimit s"
    by (simp add: honoured_iff RATE_LIMIT_COOLDOWN_def)
  have f: "step (Fetch response_status url now issuer) s =
       (if honoured response_status url now s
        then s\<lparr> lastRateLimitTime := now, isHandlingRateLimit := True,
                pendingTimers := pendingTimers s + 1 \<rparr>
        else s)"
    by (simp add: fetch_interceptor_honoured)
  show ?thesis
    using h f lrt_step [of ev s] r catch_rate_limit [of er q s] by blast
qed

lemmas eval_send = handleSend_finish_def try_block_def direct_answer_def single_answer_def
  catch_block_def isRateLimit_def rate_limit_error_def rate_limited_env_def log_call_def
  rendered_def honoured_def

theorem rate_limit_guards_witness:
  "honoured 429 gemini_url 1700000005400 (run initial ready_trace)
   \<and> js_includes gemini_url GEMINI_HOST
   \<and> truthy (activeRequestId (run initial ready_trace))
   \<and> (1700000005400 :: int) - lastRateLimitTime (run initial ready_trace) \<ge> 3000
   \<and> \<not> isHandlingRateLimit (run initial ready_trace)
   \<and> honoured_times initial detected_trace = [1700000005400]
   \<and> lastRateLimitTime (run initial detected_trace) = 1700000005400
   \<and> \<not> honoured 429 gemini_url 1700000005900 (run initial detected_trace)
   \<and> step (Fetch 429 gemini_url 1700000005900 (Some first_request)) (run initial detected_trace)
       = run initial detected_trace
   \<and> openPrompts (run initial detected_trace) > 0
   \<and> lastRateLimitTime (step ClickCancel (run initial detected_trace)) = 0
   \<and> lastRateLimitTime (step (SendDone 0 rate_limited_env) (run initial detected_trace))
       = 1700000005400
   \<and> isRateLimit rate_limit_error
   \<and> catch_block rate_limit_error example_question (run initial detected_trace)
       = showModelSwitchPrompt
           ((run initial detected_trace)\<lparr> lastFailedQuestion := Some example_question \<rparr>)"
proof -
  have a: "truthy (activeRequestId (run initial ready_trace))"
    "lastRateLimitTime (run initial ready_trace) = 0"
    "\<not> isHandlingRateLimit (run initial ready_trace)"
    "js_includes gemini_url GEMINI_HOST"
    by (simp_all add: ready_trace_def eval_defs ascii_def)
  have b: "honoured_times initial detected_trace = [1700000005400]"
    by (simp add: detected_trace_def ready_trace_def eval_defs honoured_def ascii_def)
  have c: "isHandlingRateLimit (run initial detected_trace)"
    "lastRateLimitTime (run initial detected_trace) = 1700000005400"
    "openPrompts (run initial detected_trace) > 0"
    by (simp_all add: detected_trace_def ready_trace_def eval_defs ascii_def)
  have e: "isRateLimit rate_limit_error"
    by (simp add: isRateLimit_def rate_limit_error_def)
  note t1 = rate_limit_guards [of 429 gemini_url 1700000005400 "run initial ready_trace"
      None ClickCancel detected_trace rate_limit_error example_question]
  note t2 = rate_limit_guards [of 429 gemini_url 1700000005900 "run initial detected_trace"
      "Some first_request" ClickCancel detected_trace rate_limit_error example_question]
  note t3 = rate_limit_guards [of 429 gemini_url 1700000005900 "run initial detected_trace"
      "Some first_request" "SendDone 0 rate_limited_env" detected_trace rate_limit_error
      example_question]
  have h1: "honoured 429 gemini_url 1700000005400 (run initial ready_trace)"
    using t1 a by simp
  have h2: "\<not> honoured 429 gemini_url 1700000005900 (run initial detected_trace)"
    using t2 c by simp
  have s2: "step (Fetch 429 gemini_url 1700000005900 (Some first_request))
      (run initial detected_trace) = run initial detected_trace"
    using t2 h2 by simp
  have l2: "lastRateLimitTime (step ClickCancel (run initial detected_trace)) = 0"
    using t2 c by simp
  have l3: "lastRateLimitTime (step (SendDone 0 rate_limited_env) (run initial detected_trace))
       = 1700000005400"
    using t3 c by simp
  have k: "catch_block rate_limit_error example_question (run initial detected_trace)
       = showModelSwitchPrompt
           ((run initial detected_trace)\<lparr> lastFailedQuestion := Some example_question \<rparr>)"
    using t2 e by blast
  show ?thesis
    using h1 h2 s2 l2 l3 k a b c e by simp
qed

text \<open>
  The claim as stated fails on (a) and on (b). A 429 response to the first request is
  honoured while the second request is the active one: the identifiers are not
  compared. A detection is honoured 2000 ms after the previous honoured one, when the
  switch button was clicked in between. And outside the interceptor, the error handler
  of \<^verbatim>\<open>handleSend\<close> opens a second switch prompt for a rate-limit error while the first
  detection is still being handled.
\<close>

theorem rate_limit_guards_counterexample:
  "activeRequestId (run initial overlapping_trace) = Some second_request
   \<and> map fst (inflight (run initial overlapping_trace)) = [first_request, second_request]
   \<and> first_request \<noteq> second_request
   \<and> honoured_times initial
        (overlapping_trace @ [Fetch 429 gemini_url 1700000006400 (Some first_request)])
       = [1700000006400]
   \<and> honoured_times initial
        (switched_trace @ [Fetch 429 gemini_url 1700000007400
                             (Some (ascii ''1700000007100-q1w2e3r4t''))])
       = [1700000005400, 1700000007400]
   \<and> (1700000007400 :: int) - 1700000005400 < RATE_LIMIT_COOLDOWN
   \<and> isHandlingRateLimit (run initial detected_trace)
   \<and> openPrompts (run initial detected_trace) = 1
   \<and> openPrompts (step (SendDone 0 rate_limited_env) (run initial detected_trace)) = 2"
proof -
  have a: "activeRequestId (run initial overlapping_trace) = Some second_request"
    "map fst (inflight (run initial overlapping_trace)) = [first_request, second_request]"
    "first_request \<noteq> second_request"
    "honoured_times initial
        (overlapping_trace @ [Fetch 429 gemini_url 1700000006400 (Some first_request)])
       = [1700000006400]"
    by (simp_all add: overlapping_trace_def ready_trace_def eval_defs honoured_def
        first_request_def second_request_def second_question_def ascii_def)
  have b: "honoured_times initial
        (switched_trace @ [Fetch 429 gemini_url 1700000007400
                             (Some (ascii ''1700000007100-q1w2e3r4t''))])
       = [1700000005400, 1700000007400]
   \<and> (1700000007400 :: int) - 1700000005400 < RATE_LIMIT_COOLDOWN
   \<and> isHandlingRateLimit (run initial detected_trace)
   \<and> openPrompts (run initial detected_trace) = 1
   \<and> openPrompts (step (SendDone 0 rate_limited_env) (run initial detected_trace)) = 2"
    by (simp add: switched_trace_def detected_trace_def ready_trace_def eval_defs eval_send
        truncation_calls_def ascii_def)
  show ?thesis
    using a b by simp
qed

subsection \<open>The hybrid controller\<close>

lemma calls_catch_block [simp]: "calls (catch_block er q s) = calls s"
  by (simp add: catch_block_def Let_def show_item_def showModelSwitchPrompt_def
      showFinalRateLimitMessage_def split: option.splits)

lemma hybrid_answer_calls:
  "calls (fst (hybrid_answer e c summary q s)) = calls s @
     (case chainStream e c summary q (chatHistory s) of
        Stream chunks1 (Some err) \<Rightarrow> [ChainStream c summary q]
      | Stream chunks1 None \<Rightarrow>
          if js_includes (concat chunks1) NEEDS_DETAIL
          then [ChainStream c summary q, Retrieve q 4 (1/2)]
               @ (let ctx = join chunk_separator
                              (retrieveRelevantChunks (embedQuery e) (vectorStore s) q 4 (1/2))
                  in if ctx \<noteq> [] then [RetrievalStream summary ctx q] else [])
          else [ChainStream c summary q])"
  by (simp add: hybrid_answer_def Let_def log_call_def show_item_def push_history_def
      split: stream_result.splits option.splits)

lemma try_block_hybrid:
  assumes "useHybridMode s" "documentSummary s = Some summary" "summary \<noteq> []"
    "vectorStore s \<noteq> None"
  shows "calls (fst (try_block e c text q s)) = calls (fst (hybrid_answer e c summary q s))"
    and "shown (fst (try_block e c text q s)) = shown (fst (hybrid_answer e c summary q s))"
    and "snd (try_block e c text q s) = snd (hybrid_answer e c summary q s)"
  using assms
  by (simp_all add: try_block_def truthy_def Let_def split_beta split: option.splits)

lemma handleSend_hybrid_calls:
  assumes "useHybridMode s" "documentSummary s = Some summary" "summary \<noteq> []"
    "vectorStore s \<noteq> None" "chain s = Some c" "pageContent s = Some text" "q \<noteq> []"
  shows "calls (handleSend e q stamp rnd s) = calls s @
     (case chainStream e c summary q (chatHistory s) of
        Stream chunks1 (Some err) \<Rightarrow> [ChainStream c summary q]
      | Stream chunks1 None \<Rightarrow>
          if js_includes (concat chunks1) NEEDS_DETAIL
          then [ChainStream c summary q, Retrieve q 4 (1/2)]
               @ (let ctx = join chunk_separator
                              (retrieveRelevantChunks (embedQuery e) (vectorStore s) q 4 (1/2))
                  in if ctx \<noteq> [] then [RetrievalStream summary ctx q] else [])
          else [ChainStream c summary q])"
proof -
  let ?s1 = "show_item (UserMessage q)
               (s\<lparr> activeRequestId := Some (stamp @ ascii ''-'' @ rnd),
                   inflight := inflight s @ [(stamp @ ascii ''-'' @ rnd, q)] \<rparr>)"
  have start: "handleSend_start q stamp rnd s = Some ?s1"
    using assms by (simp add: handleSend_start_def)
  have hyb: "useHybridMode ?s1" "documentSummary ?s1 = Some summary" "vectorStore ?s1 \<noteq> None"
    "chain ?s1 = Some c" "pageContent ?s1 = Some text" "chatHistory ?s1 = chatHistory s"
    "vectorStore ?s1 = vectorStore s" "calls ?s1 = calls s"
    using assms by (simp_all add: show_item_def)
  have "calls (handleSend e q stamp rnd s) = calls (fst (try_block e c text q ?s1))"
    by (simp add: handleSend_def start handleSend_finish_def hyb Let_def split_beta
        split: option.splits)
  also have "\<dots> = calls (fst (hybrid_answer e c summary q ?s1))"
    using hyb assms(3) by (simp add: try_block_hybrid)
  finally have "calls (handleSend e q stamp rnd s) = calls (fst (hybrid_answer e c summary q ?s1))" .
  then show ?thesis
    unfolding hybrid_answer_calls hyb(6) hyb(7) hyb(8) .
qed

lemma shown_catch_block_prefix:
  "\<exists>items. shown (catch_block er q s) = shown s @ items"
  by (simp add: catch_block_def Let_def show_item_def showModelSwitchPrompt_def
      showFinalRateLimitMessage_def split: option.splits)

lemma hybrid_display_fields:
  assumes "chatHistory s' = chatHistory s" "vectorStore s' = vectorStore s"
    "currentModelIndex s' = currentModelIndex s"
  shows "hybrid_display e c summary q s' = hybrid_display e c summary q s"
  unfolding hybrid_display_def getCurrentModel_def assms by (rule refl)

lemma hybrid_answer_shown:
  "shown (fst (hybrid_answer e c summary q s)) =
     shown s @ [AssistantMessage (hybrid_display e c summary q s)]"
  by (simp add: hybrid_answer_def hybrid_display_def Let_def log_call_def show_item_def
      push_history_def split: stream_result.splits option.splits)

lemma handleSend_hybrid_shown:
  assumes "useHybridMode s" "documentSummary s = Some summary" "summary \<noteq> []"
    "vectorStore s \<noteq> None" "chain s = Some c" "pageContent s = Some text" "q \<noteq> []"
  shows "\<exists>items. shown (handleSend e q stamp rnd s) =
           shown s @ [UserMessage q, AssistantMessage (hybrid_display e c summary q s)] @ items"
    and "snd (hybrid_answer e c summary q
               (show_item (UserMessage q)
                 (s\<lparr> activeRequestId := Some (stamp @ ascii ''-'' @ rnd),
                     inflight := inflight s @ [(stamp @ ascii ''-'' @ rnd, q)] \<rparr>))) = None
         \<Longrightarrow> shown (handleSend e q stamp rnd s) =
               shown s @ [UserMessage q, AssistantMessage (hybrid_display e c summary q s)]"
proof -
  let ?s1 = "show_item (UserMessage q)
               (s\<lparr> activeRequestId := Some (stamp @ ascii ''-'' @ rnd),
                   inflight := inflight s @ [(stamp @ ascii ''-'' @ rnd, q)] \<rparr>)"
  have start: "handleSend_start q stamp rnd s = Some ?s1"
    using assms by (simp add: handleSend_start_def)
  have hyb: "useHybridMode ?s1" "documentSummary ?s1 = Some summary" "vectorStore ?s1 \<noteq> None"
    "chain ?s1 = Some c" "pageContent ?s1 = Some text"
    using assms by (simp_all add: show_item_def)
  have d: "hybrid_display e c summary q ?s1 = hybrid_display e c summary q s"
    by (rule hybrid_display_fields) (simp_all add: show_item_def)
  have sh: "shown ?s1 = shown s @ [UserMessage q]"
    by (simp add: show_item_def)
  have tb: "shown (fst (try_block e c text q ?s1)) =
      shown s @ [UserMessage q, AssistantMessage (hybrid_display e c summary q s)]"
    using hyb assms(3) by (simp add: try_block_hybrid hybrid_answer_shown d sh)
  have fin: "shown (handleSend e q stamp rnd s) =
      (case snd (try_block e c text q ?s1) of
         None \<Rightarrow> shown (fst (try_block e c text q ?s1))
       | Some er \<Rightarrow> shown (catch_block er q (fst (try_block e c text q ?s1))))"
    by (simp add: handleSend_def start handleSend_finish_def hyb Let_def split_beta
        split: option.splits)
  show "\<exists>items. shown (handleSend e q stamp rnd s) =
           shown s @ [UserMessage q, AssistantMessage (hybrid_display e c summary q s)] @ items"
  proof (cases "snd (try_block e c text q ?s1)")
    case None
    then show ?thesis by (simp add: fin tb)
  next
    case (Some er)
    obtain items where "shown (catch_block er q (fst (try_block e c text q ?s1))) =
        shown (fst (try_block e c text q ?s1)) @ items"
      using shown_catch_block_prefix by blast
    then show ?thesis by (simp add: fin tb Some)
  qed
  show "shown (handleSend e q stamp rnd s) =
               shown s @ [UserMessage q, AssistantMessage (hybrid_display e c summary q s)]"
    if "snd (hybrid_answer e c summary q ?s1) = None"
  proof -
    have "snd (try_block e c text q ?s1) = None"
      using hyb assms(3) that by (simp add: try_block_hybrid)
    then show ?thesis by (simp add: fin tb)
  qed
qed

text \<open>
  C2. For a question handled in hybrid mode, the calls that \<^verbatim>\<open>handleSend\<close> makes are the
  summary-stage completion alone when its response has no marker (or fails), and
  otherwise that completion, one retrieval with the question, and, when the retrieved
  context is not empty, the detail-stage completion. So there is one retrieval exactly
  when the summary-stage response includes the marker and none otherwise, never more
  than one, never more than two completions, and a second completion only after the
  retrieval. The calls do not depend on the detail-stage response: it becomes the
  content of the answer as it is, with or without a marker.
\<close>

theorem hybrid_escalates_once:
  assumes "useHybridMode s" "documentSummary s = Some summary" "summary \<noteq> []"
    "vectorStore s \<noteq> None" "chain s = Some c" "pageContent s = Some text" "q \<noteq> []"
  shows "new_calls s (handleSend e q stamp rnd s) =
     (case chainStream e c summary q (chatHistory s) of
        Stream chunks1 (Some err) \<Rightarrow> [ChainStream c summary q]
      | Stream chunks1 None \<Rightarrow>
          if js_includes (concat chunks1) NEEDS_DETAIL
          then [ChainStream c summary q, Retrieve q 4 (1/2)]
               @ (let ctx = join chunk_separator
                              (retrieveRelevantChunks (embedQuery e) (vectorStore s) q 4 (1/2))
                  in if ctx \<noteq> [] then [RetrievalStream summary ctx q] else [])
          else [ChainStream c summary q])
    \<and> length (filter is_retrieval (new_calls s (handleSend e q stamp rnd s))) =
        (case chainStream e c summary q (chatHistory s) of
           Stream chunks1 (Some err) \<Rightarrow> 0
         | Stream chunks1 None \<Rightarrow> if js_includes (concat chunks1) NEEDS_DETAIL then 1 else 0)
    \<and> length (filter is_retrieval (new_calls s (handleSend e q stamp rnd s))) \<le> 1
    \<and> length (filter is_completion (new_calls s (handleSend e q stamp rnd s))) \<le> 2
    \<and> (length (filter is_completion (new_calls s (handleSend e q stamp rnd s))) = 2
         \<longrightarrow> length (filter is_retrieval (new_calls s (handleSend e q stamp rnd s))) = 1)
    \<and> (chainStream e c summary q (chatHistory s) = Stream chunks1 None
         \<and> js_includes (concat chunks1) NEEDS_DETAIL
         \<and> join chunk_separator
               (retrieveRelevantChunks (embedQuery e) (vectorStore s) q 4 (1/2)) = ctx
         \<and> ctx \<noteq> []
         \<and> retrievalStream e (getCurrentModel s) summary ctx q (chatHistory s) = Stream chunks2 None
         \<longrightarrow> new_items s (handleSend e q stamp rnd s) =
               [UserMessage q, AssistantMessage (rendered (Searching (concat chunks1)) chunks2)])"
proof -
  let ?s1 = "show_item (UserMessage q)
               (s\<lparr> activeRequestId := Some (stamp @ ascii ''-'' @ rnd),
                   inflight := inflight s @ [(stamp @ ascii ''-'' @ rnd, q)] \<rparr>)"
  note c = handleSend_hybrid_calls [OF assms, of e stamp rnd]
  have counts: "new_calls s (handleSend e q stamp rnd s) =
     (case chainStream e c summary q (chatHistory s) of
        Stream chunks1 (Some err) \<Rightarrow> [ChainStream c summary q]
      | Stream chunks1 None \<Rightarrow>
          if js_includes (concat chunks1) NEEDS_DETAIL
          then [ChainStream c summary q, Retrieve q 4 (1/2)]
               @ (let ctx = join chunk_separator
                              (retrieveRelevantChunks (embedQuery e) (vectorStore s) q 4 (1/2))
                  in if ctx \<noteq> [] then [RetrievalStream summary ctx q] else [])
          else [ChainStream c summary q])
    \<and> length (filter is_retrieval (new_calls s (handleSend e q stamp rnd s))) =
        (case chainStream e c summary q (chatHistory s) of
           Stream chunks1 (Some err) \<Rightarrow> 0
         | Stream chunks1 None \<Rightarrow> if js_includes (concat chunks1) NEEDS_DETAIL then 1 else 0)
    \<and> length (filter is_retrieval (new_calls s (handleSend e q stamp rnd s))) \<le> 1
    \<and> length (filter is_completion (new_calls s (handleSend e q stamp rnd s))) \<le> 2
    \<and> (length (filter is_completion (new_calls s (handleSend e q stamp rnd s))) = 2
         \<longrightarrow> length (filter is_retrieval (new_calls s (handleSend e q stamp rnd s))) = 1)"
    unfolding new_calls_def c
    by (simp add: Let_def is_retrieval_def is_completion_def
        split: stream_result.splits option.splits)
  have final: "new_items s (handleSend e q stamp rnd s) =
               [UserMessage q, AssistantMessage (rendered (Searching (concat chunks1)) chunks2)]"
    if h: "chainStream e c summary q (chatHistory s) = Stream chunks1 None"
      "js_includes (concat chunks1) NEEDS_DETAIL"
      "join chunk_separator
               (retrieveRelevantChunks (embedQuery e) (vectorStore s) q 4 (1/2)) = ctx"
      "ctx \<noteq> []"
      "retrievalStream e (getCurrentModel s) summary ctx q (chatHistory s) = Stream chunks2 None"
  proof -
    have f: "chatHistory ?s1 = chatHistory s" "vectorStore ?s1 = vectorStore s"
      "getCurrentModel ?s1 = getCurrentModel s"
      by (simp_all add: show_item_def getCurrentModel_def)
    have "snd (hybrid_answer e c summary q ?s1) = None"
      unfolding hybrid_answer_def f Let_def using h by simp
    then have "shown (handleSend e q stamp rnd s) =
               shown s @ [UserMessage q, AssistantMessage (hybrid_display e c summary q s)]"
      by (rule handleSend_hybrid_shown(2) [OF assms])
    moreover have "hybrid_display e c summary q s = rendered (Searching (concat chunks1)) chunks2"
      unfolding hybrid_display_def Let_def using h by simp
    ultimately show ?thesis by (simp add: new_items_def)
  qed
  show ?thesis
    using counts final by blast
qed

text \<open>
  C9. In a hybrid escalation (the summary-stage response includes the marker), when the
  retrieval returns no chunks the answer shown for the question is the fixed message
  \<^verbatim>\<open>Could not find specific details. The summary may be your best answer.\<close>, and the
  calls are the summary-stage completion and the retrieval: no second completion.
\<close>

theorem empty_retrieval_fixed_message:
  assumes "useHybridMode s" "documentSummary s = Some summary" "summary \<noteq> []"
    "vectorStore s \<noteq> None" "chain s = Some c" "pageContent s = Some text" "q \<noteq> []"
    and "chainStream e c summary q (chatHistory s) = Stream chunks1 None"
    and "js_includes (concat chunks1) NEEDS_DETAIL"
    and "retrieveRelevantChunks (embedQuery e) (vectorStore s) q 4 (1/2) = []"
  shows "new_items s (handleSend e q stamp rnd s) =
           [UserMessage q, AssistantMessage (Rendered NO_DETAILS_MESSAGE)]
    \<and> new_calls s (handleSend e q stamp rnd s) = [ChainStream c summary q, Retrieve q 4 (1/2)]
    \<and> length (filter is_completion (new_calls s (handleSend e q stamp rnd s))) = 1"
proof -
  let ?s1 = "show_item (UserMessage q)
               (s\<lparr> activeRequestId := Some (stamp @ ascii ''-'' @ rnd),
                   inflight := inflight s @ [(stamp @ ascii ''-'' @ rnd, q)] \<rparr>)"
  note h = assms(8-10)
  have f: "chatHistory ?s1 = chatHistory s" "vectorStore ?s1 = vectorStore s"
    "getCurrentModel ?s1 = getCurrentModel s"
    by (simp_all add: show_item_def getCurrentModel_def)
  have "snd (hybrid_answer e c summary q ?s1) = None"
    unfolding hybrid_answer_def f Let_def using h by simp
  then have "shown (handleSend e q stamp rnd s) =
               shown s @ [UserMessage q, AssistantMessage (hybrid_display e c summary q s)]"
    by (rule handleSend_hybrid_shown(2) [OF assms(1-7)])
  moreover have "hybrid_display e c summary q s = Rendered NO_DETAILS_MESSAGE"
    unfolding hybrid_display_def Let_def using h by simp
  ultimately have items: "new_items s (handleSend e q stamp rnd s) =
           [UserMessage q, AssistantMessage (Rendered NO_DETAILS_MESSAGE)]"
    by (simp add: new_items_def)
  have "calls (handleSend e q stamp rnd s) = calls s @ [ChainStream c summary q, Retrieve q 4 (1/2)]"
    unfolding handleSend_hybrid_calls [OF assms(1-7), of e stamp rnd] using h by simp
  then have cs: "new_calls s (handleSend e q stamp rnd s) = [ChainStream c summary q, Retrieve q 4 (1/2)]"
    by (simp add: new_calls_def)
  show ?thesis
    using items cs by (simp add: is_completion_def)
qed

lemma hybrid_state_fields:
  "useHybridMode hybrid_state"
  "documentSummary hybrid_state = Some (ascii ''A summary of the article.'')"
  "vectorStore hybrid_state =
     Some \<lparr> chunks = [ascii ''first chunk'', ascii ''second chunk''],
            embeddings = [Some [1, 0], Some [0, 1]] \<rparr>"
  "chain hybrid_state = Some (Hybrid, ascii ''gemini-2.5-flash-lite'')"
  "pageContent hybrid_state = Some (replicate 40000 0x61)"
  "chatHistory hybrid_state = []"
  "currentModelIndex hybrid_state = 0"
  by (simp_all add: hybrid_state_def cached_page_def initial_def processPageContent_def
      or_null_def loadProcessingCache_def example_entry_def example_url_def process_cached_def
      restore_cached_def estimatedTokens_def truthy_def initLangChain_def updateModeBadge_def
      getCurrentModel_def MODEL_FALLBACK_CHAIN_def Let_def ascii_def)

lemmas eval_retrieval = retrieveRelevantChunks_def validSimilarities_def similarities_def
  similarity_at_def top_k_def cosineSimilarity_def cosine_def dotProduct_def magnitude_def
  isNaN_def Let_def upt_rec

lemma retrieval_first:
  "retrieveRelevantChunks (embedQuery escalating_env) (vectorStore hybrid_state)
     example_question 4 (1/2) = [ascii ''first chunk'']"
  by (simp add: hybrid_state_fields escalating_env_def eval_retrieval ascii_def)

lemma retrieval_none:
  "retrieveRelevantChunks (embedQuery unhelpful_env) (vectorStore hybrid_state)
     example_question 4 (1/2) = []"
  by (simp add: hybrid_state_fields unhelpful_env_def escalating_env_def eval_retrieval ascii_def)

theorem hybrid_escalates_once_witness:
  "useHybridMode hybrid_state
   \<and> documentSummary hybrid_state = Some (ascii ''A summary of the article.'')
   \<and> vectorStore hybrid_state \<noteq> None
   \<and> chain hybrid_state = Some (Hybrid, ascii ''gemini-2.5-flash-lite'')
   \<and> pageContent hybrid_state = Some (replicate 40000 0x61)
   \<and> js_includes (concat [NEEDS_DETAIL, ascii '' the exact date'']) NEEDS_DETAIL
   \<and> js_includes (concat [NEEDS_DETAIL @ ascii '' the date in section 2'']) NEEDS_DETAIL
   \<and> new_calls hybrid_state
         (handleSend escalating_env example_question (ascii ''1700000005000'') (ascii ''k3j9x0a1b'')
            hybrid_state) =
       [ChainStream (Hybrid, ascii ''gemini-2.5-flash-lite'') (ascii ''A summary of the article.'')
          example_question,
        Retrieve example_question 4 (1/2),
        RetrievalStream (ascii ''A summary of the article.'') (ascii ''first chunk'')
          example_question]
   \<and> length (filter is_retrieval (new_calls hybrid_state
         (handleSend escalating_env example_question (ascii ''1700000005000'') (ascii ''k3j9x0a1b'')
            hybrid_state))) = 1
   \<and> length (filter is_completion (new_calls hybrid_state
         (handleSend escalating_env example_question (ascii ''1700000005000'') (ascii ''k3j9x0a1b'')
            hybrid_state))) = 2
   \<and> new_items hybrid_state
         (handleSend escalating_env example_question (ascii ''1700000005000'') (ascii ''k3j9x0a1b'')
            hybrid_state) =
       [UserMessage example_question,
        AssistantMessage (Rendered (NEEDS_DETAIL @ ascii '' the date in section 2''))]"
proof -
  note f = hybrid_state_fields
  have h: "ascii ''A summary of the article.'' \<noteq> []" "vectorStore hybrid_state \<noteq> None"
    "example_question \<noteq> []"
    by (simp_all add: f ascii_def example_question_def)
  have st1: "chainStream escalating_env (Hybrid, ascii ''gemini-2.5-flash-lite'')
       (ascii ''A summary of the article.'') example_question (chatHistory hybrid_state)
     = Stream [NEEDS_DETAIL, ascii '' the exact date''] None"
    by (simp add: escalating_env_def)
  have inc: "js_includes (concat [NEEDS_DETAIL, ascii '' the exact date'']) NEEDS_DETAIL"
    "js_includes (concat [NEEDS_DETAIL @ ascii '' the date in section 2'']) NEEDS_DETAIL"
    by (simp_all add: NEEDS_DETAIL_def ascii_def)
  have ctx: "join chunk_separator
       (retrieveRelevantChunks (embedQuery escalating_env) (vectorStore hybrid_state)
          example_question 4 (1/2)) = ascii ''first chunk''"
    "ascii ''first chunk'' \<noteq> []"
    by (simp_all add: retrieval_first) (simp add: ascii_def)
  have st2: "retrievalStream escalating_env (getCurrentModel hybrid_state)
       (ascii ''A summary of the article.'') (ascii ''first chunk'') example_question
       (chatHistory hybrid_state)
     = Stream [NEEDS_DETAIL @ ascii '' the date in section 2''] None"
    by (simp add: escalating_env_def)
  note t = hybrid_escalates_once [OF f(1) f(2) h(1) h(2) f(4) f(5) h(3),
      of escalating_env "ascii ''1700000005000''" "ascii ''k3j9x0a1b''"
         "[NEEDS_DETAIL, ascii '' the exact date'']" "ascii ''first chunk''"
         "[NEEDS_DETAIL @ ascii '' the date in section 2'']"]
  show ?thesis
    using t f(1,2,4,5) h(2) inc st1 st2 ctx
    by (simp add: is_retrieval_def is_completion_def rendered_def)
qed

theorem empty_retrieval_fixed_message_witness:
  "useHybridMode hybrid_state
   \<and> documentSummary hybrid_state = Some (ascii ''A summary of the article.'')
   \<and> vectorStore hybrid_state \<noteq> None
   \<and> chain hybrid_state = Some (Hybrid, ascii ''gemini-2.5-flash-lite'')
   \<and> pageContent hybrid_state = Some (replicate 40000 0x61)
   \<and> chainStream unhelpful_env (Hybrid, ascii ''gemini-2.5-flash-lite'')
        (ascii ''A summary of the article.'') example_question (chatHistory hybrid_state)
       = Stream [NEEDS_DETAIL, ascii '' the exact date''] None
   \<and> js_includes (concat [NEEDS_DETAIL, ascii '' the exact date'']) NEEDS_DETAIL
   \<and> retrieveRelevantChunks (embedQuery unhelpful_env) (vectorStore hybrid_state)
        example_question 4 (1/2) = []
   \<and> new_items hybrid_state
         (handleSend unhelpful_env example_question (ascii ''1700000005000'') (ascii ''k3j9x0a1b'')
            hybrid_state) =
       [UserMessage example_question, AssistantMessage (Rendered NO_DETAILS_MESSAGE)]
   \<and> new_calls hybrid_state
         (handleSend unhelpful_env example_question (ascii ''1700000005000'') (ascii ''k3j9x0a1b'')
            hybrid_state) =
       [ChainStream (Hybrid, ascii ''gemini-2.5-flash-lite'') (ascii ''A summary of the article.'')
          example_question,
        Retrieve example_question 4 (1/2)]"
proof -
  note f = hybrid_state_fields
  have h: "ascii ''A summary of the article.'' \<noteq> []" "vectorStore hybrid_state \<noteq> None"
    "example_question \<noteq> []"
    by (simp_all add: f ascii_def example_question_def)
  have st1: "chainStream unhelpful_env (Hybrid, ascii ''gemini-2.5-flash-lite'')
       (ascii ''A summary of the article.'') example_question (chatHistory hybrid_state)
     = Stream [NEEDS_DETAIL, ascii '' the exact date''] None"
    by (simp add: unhelpful_env_def escalating_env_def)
  have inc: "js_includes (concat [NEEDS_DETAIL, ascii '' the exact date'']) NEEDS_DETAIL"
    by (simp add: NEEDS_DETAIL_def ascii_def)
  note t = empty_retrieval_fixed_message [OF f(1) f(2) h(1) h(2) f(4) f(5) h(3) st1 inc
      retrieval_none, of "ascii ''1700000005000''" "ascii ''k3j9x0a1b''"]
  show ?thesis
    using t f(1,2,4,5) h(2) inc st1 retrieval_none
    by simp
qed

subsection \<open>Cosine similarity\<close>

text \<open>Symmetry and the zero result hold in any arithmetic.\<close>

lemma num_mult_commute: "num_mult rnd x y = num_mult rnd y x"
  by (cases x; cases y) (simp_all add: mult.commute)

lemma dot_fold_commute:
  "foldl (\<lambda>sum (a, b). num_add rnd sum (num_mult rnd (Num a) (Num b))) acc (zip a b)
     = foldl (\<lambda>sum (a, b). num_add rnd sum (num_mult rnd (Num a) (Num b))) acc (zip b a)"
proof (induction a arbitrary: b acc)
  case Nil
  show ?case by simp
next
  case (Cons x xs)
  show ?case
  proof (cases b)
    case Nil
    then show ?thesis by simp
  next
    case (Cons y ys)
    have "num_mult rnd (Num x) (Num y) = num_mult rnd (Num y) (Num x)"
      by (rule num_mult_commute)
    then show ?thesis
      using Cons.IH [of "num_add rnd acc (num_mult rnd (Num y) (Num x))" ys]
      by (simp add: Cons del: num_mult.simps)
  qed
qed

lemma dotProduct_commute: "dotProduct rnd a b = dotProduct rnd b a"
  unfolding dotProduct_def by (rule dot_fold_commute)

lemma cosine_commute: "cosine rnd a b = cosine rnd b a"
proof (cases a; cases b)
  fix va vb
  assume ab: "a = Some va" "b = Some vb"
  have "num_mult rnd (magnitude rnd va) (magnitude rnd vb)
      = num_mult rnd (magnitude rnd vb) (magnitude rnd va)"
    by (rule num_mult_commute)
  moreover have "dotProduct rnd va vb = dotProduct rnd vb va"
    by (rule dotProduct_commute)
  ultimately show ?thesis
    unfolding ab cosine_def by auto
qed (simp_all add: cosine_def)

lemma cosine_zero_magnitude:
  assumes "magnitude rnd v = Num 0"
  shows "cosine rnd (Some v) b = Num 0" and "cosine rnd a (Some v) = Num 0"
proof -
  show "cosine rnd (Some v) b = Num 0"
    using assms by (cases b) (simp_all add: cosine_def)
  show "cosine rnd a (Some v) = Num 0"
    using assms by (cases a) (simp_all add: cosine_def)
qed

lemma squares_fold_zero:
  assumes "rnd 0 = Num 0" and "set v \<subseteq> {0}"
  shows "foldl (\<lambda>sum a. num_add rnd sum (num_mult rnd (Num a) (Num a))) (Num 0) v = Num 0"
  using assms(2) by (induction v) (simp_all add: assms(1))

lemma magnitude_zero_vector:
  assumes "rnd 0 = Num 0" and "set v \<subseteq> {0}"
  shows "magnitude rnd v = Num 0"
  using assms squares_fold_zero [of rnd v] by (simp add: magnitude_def)

text \<open>The bound, in exact arithmetic.\<close>

lemma foldl_dot:
  "foldl (\<lambda>sum (a, b). num_add exact sum (num_mult exact (Num a) (Num b))) (Num acc) ps
     = Num (acc + (\<Sum>(a, b) \<leftarrow> ps. a * b))"
  by (induction ps arbitrary: acc) (auto simp add: exact_def algebra_simps)

lemma foldl_squares:
  "foldl (\<lambda>sum a. num_add exact sum (num_mult exact (Num a) (Num a))) (Num acc) xs
     = Num (acc + (\<Sum>a \<leftarrow> xs. a * a))"
  by (induction xs arbitrary: acc) (auto simp add: exact_def algebra_simps)

lemma dotProduct_sum: "dotProduct exact a b = Num (\<Sum>(x, y) \<leftarrow> zip a b. x * y)"
  unfolding dotProduct_def foldl_dot by simp

lemma squares_nonneg: "0 \<le> (\<Sum>x \<leftarrow> a. x * x)" for a :: "real list"
  by (induction a) simp_all

lemma magnitude_sum: "magnitude exact a = Num (sqrt (\<Sum>x \<leftarrow> a. x * x))"
  unfolding magnitude_def foldl_squares using squares_nonneg [of a] by (simp add: exact_def)

lemma squares_zero_iff: "(\<Sum>x \<leftarrow> a. x * x) = 0 \<longleftrightarrow> (\<forall>x \<in> set a. x = 0)" for a :: "real list"
proof (induction a)
  case Nil
  show ?case by simp
next
  case (Cons x xs)
  have "x * x + (\<Sum>x \<leftarrow> xs. x * x) = 0 \<longleftrightarrow> x * x = 0 \<and> (\<Sum>x \<leftarrow> xs. x * x) = 0"
    using squares_nonneg [of xs] by (intro add_nonneg_eq_0_iff) simp_all
  then show ?case using Cons.IH by simp
qed

lemma magnitude_zero_iff: "magnitude exact a = Num 0 \<longleftrightarrow> (\<forall>x \<in> set a. x = 0)"
  by (simp add: magnitude_sum squares_zero_iff)

lemma am_gm_step:
  fixes u v w :: real
  assumes "0 \<le> u" "0 \<le> v" "w * w \<le> u * v"
  shows "2 * w \<le> u + v"
proof -
  have "(2 * w)\<^sup>2 = 4 * (w * w)" by (simp add: power2_eq_square)
  also have "\<dots> \<le> 4 * (u * v)" using assms(3) by simp
  also have "\<dots> \<le> (u + v)\<^sup>2"
  proof -
    have "0 \<le> (u - v)\<^sup>2" by simp
    then show ?thesis by (simp add: power2_eq_square algebra_simps)
  qed
  finally have "(2 * w)\<^sup>2 \<le> (u + v)\<^sup>2" .
  moreover have "0 \<le> u + v" using assms(1,2) by simp
  ultimately show ?thesis by (rule power2_le_imp_le)
qed

lemma cauchy_schwarz_lists:
  "(\<Sum>(x, y) \<leftarrow> zip a b. x * y) * (\<Sum>(x, y) \<leftarrow> zip a b. x * y)
     \<le> (\<Sum>x \<leftarrow> a. x * x) * (\<Sum>y \<leftarrow> b. y * y)" for a b :: "real list"
proof (induction a arbitrary: b)
  case Nil
  show ?case by simp
next
  case (Cons x xs)
  show ?case
  proof (cases b)
    case Nil
    then show ?thesis by simp
  next
    case (Cons y ys)
    define D where "D = (\<Sum>(x, y) \<leftarrow> zip xs ys. x * y)"
    define A where "A = (\<Sum>x \<leftarrow> xs. x * x)"
    define B where "B = (\<Sum>y \<leftarrow> ys. y * y)"
    have IH: "D * D \<le> A * B"
      unfolding D_def A_def B_def by (rule Cons.IH)
    have A0: "0 \<le> A" and B0: "0 \<le> B"
      unfolding A_def B_def by (rule squares_nonneg)+
    have "(x * y * D) * (x * y * D) = (x * x) * (y * y) * (D * D)"
      by (simp add: algebra_simps)
    also have "\<dots> \<le> (x * x) * (y * y) * (A * B)"
      using IH by (intro mult_left_mono) simp_all
    also have "\<dots> = (x * x * B) * (y * y * A)"
      by (simp add: algebra_simps)
    finally have "2 * (x * y * D) \<le> x * x * B + y * y * A"
      using A0 B0 by (intro am_gm_step) simp_all
    then have "(x * y + D) * (x * y + D) \<le> (x * x + A) * (y * y + B)"
      using IH by (simp add: algebra_simps)
    then show ?thesis
      by (simp add: Cons D_def A_def B_def)
  qed
qed

lemma abs_dot_le:
  "\<bar>\<Sum>(x, y) \<leftarrow> zip a b. x * y\<bar> \<le> sqrt (\<Sum>x \<leftarrow> a. x * x) * sqrt (\<Sum>y \<leftarrow> b. y * y)"
  for a b :: "real list"
proof -
  let ?d = "\<Sum>(x, y) \<leftarrow> zip a b. x * y"
  have "\<bar>?d\<bar> = sqrt (?d * ?d)"
    by simp
  also have "\<dots> \<le> sqrt ((\<Sum>x \<leftarrow> a. x * x) * (\<Sum>y \<leftarrow> b. y * y))"
    by (intro real_sqrt_le_mono cauchy_schwarz_lists)
  also have "\<dots> = sqrt (\<Sum>x \<leftarrow> a. x * x) * sqrt (\<Sum>y \<leftarrow> b. y * y)"
    by (simp add: real_sqrt_mult)
  finally show ?thesis .
qed

lemma cosine_bounds: "\<exists>r. cosine exact a b = Num r \<and> - 1 \<le> r \<and> r \<le> 1"
proof (cases a; cases b)
  fix va vb
  assume ab: "a = Some va" "b = Some vb"
  let ?ma = "sqrt (\<Sum>x \<leftarrow> va. x * x)" and ?mb = "sqrt (\<Sum>y \<leftarrow> vb. y * y)"
  let ?d = "\<Sum>(x, y) \<leftarrow> zip va vb. x * y"
  show ?thesis
  proof (cases "length va \<noteq> length vb \<or> ?ma = 0 \<or> ?mb = 0")
    case True
    then have "cosine exact a b = Num 0"
      by (auto simp add: ab cosine_def magnitude_sum)
    then show ?thesis by simp
  next
    case False
    have "0 \<le> ?ma" "0 \<le> ?mb"
      by (simp_all add: squares_nonneg)
    with False have pos: "0 < ?ma * ?mb"
      by (simp add: less_le)
    have c: "cosine exact a b = Num (?d / (?ma * ?mb))"
      using False pos by (simp add: ab cosine_def magnitude_sum dotProduct_sum exact_def)
    have "\<bar>?d / (?ma * ?mb)\<bar> = \<bar>?d\<bar> / (?ma * ?mb)"
      using pos by simp
    also have "\<dots> \<le> 1"
      using pos abs_dot_le [of va vb] by simp
    finally have "- 1 \<le> ?d / (?ma * ?mb) \<and> ?d / (?ma * ?mb) \<le> 1"
      by linarith
    with c show ?thesis
      by blast
  qed
qed (simp_all add: cosine_def)

text \<open>
  C4, as amended. \<^verbatim>\<open>cosineSimilarity\<close> is symmetric (it returns the same value for the
  two orders, NaN included), and its result is exactly 0 whenever one of the two vectors
  has magnitude 0, as a vector of zeros has; both for all inputs, also of different
  lengths or not arrays. In exact arithmetic the result is a number between -1 and 1,
  and the magnitude is 0 for a vector of zeros only. In the double arithmetic of the
  script the result of the division is returned as it is rounded.
\<close>

theorem cosineSimilarity_properties:
  "cosineSimilarity a b = cosineSimilarity b a
   \<and> (magnitude round_double v = Num 0 \<longrightarrow>
        cosineSimilarity (Some v) b = Num 0 \<and> cosineSimilarity a (Some v) = Num 0)
   \<and> (set v \<subseteq> {0} \<longrightarrow> magnitude round_double v = Num 0)
   \<and> cosine exact a b = cosine exact b a
   \<and> (\<exists>r. cosine exact a b = Num r \<and> - 1 \<le> r \<and> r \<le> 1)
   \<and> (magnitude exact v = Num 0 \<longleftrightarrow> set v \<subseteq> {0})"
proof -
  have z: "cosineSimilarity (Some v) b = Num 0 \<and> cosineSimilarity a (Some v) = Num 0"
    if "magnitude round_double v = Num 0"
    unfolding cosineSimilarity_def using cosine_zero_magnitude [OF that] by simp
  have zv: "magnitude round_double v = Num 0" if "set v \<subseteq> {0}"
    using that by (intro magnitude_zero_vector) simp_all
  have s: "cosineSimilarity a b = cosineSimilarity b a"
    unfolding cosineSimilarity_def by (rule cosine_commute)
  have m: "magnitude exact v = Num 0 \<longleftrightarrow> set v \<subseteq> {0}"
    using magnitude_zero_iff [of v] by auto
  show ?thesis
    using s z zv cosine_commute [of exact a b] cosine_bounds [of a b] m
    by blast
qed

text \<open>
  The claim as stated fails on the bound: in double arithmetic the similarity of
  \<open>[1, 1, 1]\<close> with itself is \<open>1 + 2\<^sup>-\<^sup>5\<^sup>2\<close>, which prints as 1.0000000000000002.
\<close>

lemma dotProduct_ones: "dotProduct round_double [1, 1, 1] [1, 1, 1] = Num 3"
  by (simp add: dotProduct_def)

lemma magnitude_ones:
  "magnitude round_double [1, 1, 1] = Num (7800463371553962 / 2 ^ 52)"
  by (simp add: magnitude_def round_double_sqrt_3)

lemma cosine_ones:
  "cosineSimilarity (Some [1, 1, 1]) (Some [1, 1, 1]) = Num (4503599627370497 / 2 ^ 52)"
proof -
  have "cosineSimilarity (Some [1, 1, 1]) (Some [1, 1, 1]) =
      num_divide round_double (dotProduct round_double [1, 1, 1] [1, 1, 1])
        (num_mult round_double (magnitude round_double [1, 1, 1])
           (magnitude round_double [1, 1, 1]))"
    unfolding cosineSimilarity_def cosine_def by (simp add: magnitude_ones)
  also have "\<dots> = num_divide round_double (Num 3)
      (round_double (7800463371553962 / 2 ^ 52 * (7800463371553962 / 2 ^ 52)))"
    unfolding dotProduct_ones magnitude_ones num_mult.simps ..
  also have "\<dots> = num_divide round_double (Num 3) (Num (6755399441055743 / 2 ^ 51))"
    unfolding round_double_square ..
  also have "\<dots> = round_double (3 / (6755399441055743 / 2 ^ 51))"
    by simp
  also have "\<dots> = Num (4503599627370497 / 2 ^ 52)"
    by (rule round_double_quotient)
  finally show ?thesis .
qed

theorem cosineSimilarity_counterexample:
  "cosineSimilarity (Some [1, 1, 1]) (Some [1, 1, 1]) = Num (1 + 1 / 2 ^ 52)
   \<and> num_gt (cosineSimilarity (Some [1, 1, 1]) (Some [1, 1, 1])) (Num 1)
   \<and> \<not> num_ge (Num 1) (cosineSimilarity (Some [1, 1, 1]) (Some [1, 1, 1]))"
  by (simp add: cosine_ones)

theorem cosineSimilarity_properties_witness:
  "magnitude round_double [0, 0] = Num 0
   \<and> set [0, 0 :: real] \<subseteq> {0}
   \<and> cosineSimilarity (Some [0, 0]) (Some [1, 1]) = Num 0
   \<and> cosineSimilarity (Some [1, 1]) (Some [0, 0]) = Num 0
   \<and> cosineSimilarity (Some [1, 0]) (Some [2, 0]) = Num 1
   \<and> cosineSimilarity (Some [2, 0]) (Some [1, 0]) = Num 1
   \<and> cosine exact (Some [1, 0]) (Some [2, 0]) = Num 1"
proof -
  have c: "cosineSimilarity (Some [1, 0]) (Some [2, 0]) = Num 1"
    "cosine exact (Some [1, 0]) (Some [2, 0]) = Num 1"
    by (simp_all add: cosineSimilarity_def cosine_def magnitude_def dotProduct_def exact_def)
  show ?thesis
    using cosineSimilarity_properties [of "Some [1, 1]" "Some [1, 1]" "[0, 0]"]
      cosineSimilarity_properties [of "Some [1, 0]" "Some [2, 0]" "[0, 0]"] c
    by simp
qed

subsection \<open>Retrieval\<close>

lemma index_similarity_at [simp]: "index (similarity_at q vs i) = i"
  by (simp add: similarity_at_def Let_def split: option.splits)






























end
